theory Spec2Isabelle
  imports Complex_Main "HOL-Library.AList"
begin

section \<open>Task execution engine (selenium\_manager.py)\<close>

text \<open>
  A browser session is an opaque handle.  A unit of work is a function of the session;
  it either returns a value or raises an \<open>Exception\<close>, whose message is kept.  Only
  instances of \<open>Exception\<close> are modelled, which is what \<open>except Exception\<close> in
  \<open>Task.execute\<close> catches.
\<close>

type_synonym driver = nat

datatype exn = Exn string

datatype error =
    RuntimeError string
  | TimeoutError
  | TaskRaised exn

text \<open>
  \<open>Task\<close>: the function, its result (\<open>None\<close> is Python's \<open>None\<close>), the captured
  exception and the completion event.  \<open>task_id\<close> only feeds the log and is left out.
\<close>

record 'v task =
  func :: "driver \<Rightarrow> exn + 'v"
  result :: "'v option"
  exception :: "exn option"
  completed :: bool

definition Task :: "(driver \<Rightarrow> exn + 'v) \<Rightarrow> 'v task" where
  "Task f = \<lparr>func = f, result = None, exception = None, completed = False\<rparr>"

text \<open>\<open>Task.execute\<close>: run the function, keep the result or the exception, set the event.\<close>

definition execute :: "'v task \<Rightarrow> driver \<Rightarrow> 'v task" where
  "execute t d =
     (case func t d of
        Inr v \<Rightarrow> t\<lparr>result := Some v, completed := True\<rparr>
      | Inl e \<Rightarrow> t\<lparr>exception := Some e, completed := True\<rparr>)"

text \<open>
  \<open>Task.wait_for_completion\<close>, read once the wait on the event is over: the event is set
  or the timeout has elapsed.
\<close>

definition wait_for_completion :: "'v task \<Rightarrow> error + 'v option" where
  "wait_for_completion t =
     (if completed t then
        (case exception t of Some e \<Rightarrow> Inl (TaskRaised e) | None \<Rightarrow> Inr (result t))
      else Inl TimeoutError)"

text \<open>
  One session-creation strategy either fails before a session exists, or creates the
  session and fails while resizing its window (the session stays stored in
  \<open>self.driver\<close>), or succeeds.
\<close>

datatype approach = ChromeFailed exn | WindowFailed driver exn | Ready driver

text \<open>\<open>_setup_driver\<close>: the strategies in order; the first one that succeeds wins.\<close>

fun setup_driver :: "driver option \<Rightarrow> approach list \<Rightarrow> bool \<times> driver option" where
  "setup_driver d [] = (False, d)"
| "setup_driver d (ChromeFailed e # as) = setup_driver d as"
| "setup_driver d (WindowFailed d' e # as) = setup_driver (Some d') as"
| "setup_driver d (Ready d' # as) = (True, Some d')"

text \<open>
  \<open>SeleniumManager\<close>.  Task objects are shared between the submitter and the worker, so
  they live in a store addressed by reference; the queue holds references, and \<open>None\<close>
  in the queue is the poison pill.  \<open>setup_calls\<close> counts the calls of
  \<open>_setup_driver\<close>, so that the environment can answer each call on its own.
\<close>

record 'v manager =
  driver :: "driver option"
  task_queue :: "nat option list"
  running :: bool
  heap :: "nat \<rightharpoonup> 'v task"
  next_ref :: nat
  setup_calls :: nat

definition init_manager :: "'v manager" where
  "init_manager = \<lparr>driver = None, task_queue = [], running = False, heap = Map.empty,
     next_ref = 0, setup_calls = 0\<rparr>"

definition start :: "'v manager \<Rightarrow> 'v manager" where
  "start m = (if running m then m else m\<lparr>running := True\<rparr>)"

text \<open>
  \<open>stop\<close> clears the flag, enqueues the poison pill, waits for the worker and closes
  the session.  A worker that idles on an empty queue takes the pill out and ends, so
  the queue is empty again when \<open>stop\<close> returns.  When entries are pending, the worker
  is busy with one of them: it ends at its next test of the flag, and the pending entries
  stay in the queue with the pill behind them.
\<close>

definition stop :: "'v manager \<Rightarrow> 'v manager" where
  "stop m =
     (if \<not> running m then m
      else m\<lparr>running := False,
             task_queue := (if task_queue m = [] then [] else task_queue m @ [None]),
             driver := None\<rparr>)"

text \<open>\<open>add_task\<close>: refuses when the engine is not running, else allocates and enqueues.\<close>

definition add_task ::
  "'v manager \<Rightarrow> (driver \<Rightarrow> exn + 'v) \<Rightarrow> (error + nat) \<times> 'v manager" where
  "add_task m f =
     (if \<not> running m then
        (Inl (RuntimeError ''SeleniumManager is not running. Call start() first.''), m)
      else
        (Inr (next_ref m),
         m\<lparr>heap := (heap m)(next_ref m \<mapsto> Task f),
           task_queue := task_queue m @ [Some (next_ref m)],
           next_ref := Suc (next_ref m)\<rparr>))"

text \<open>
  One task taken from the queue by the worker: create the session if there is none, fail
  the task when no strategy works, else execute it.  \<open>env\<close> gives the outcomes of the
  strategies at each call of \<open>_setup_driver\<close>.
\<close>

definition fail_setup :: "'v task \<Rightarrow> 'v task" where
  "fail_setup t = t\<lparr>exception := Some (Exn ''Failed to setup driver''), completed := True\<rparr>"

definition handle_task :: "(nat \<Rightarrow> approach list) \<Rightarrow> nat \<Rightarrow> 'v manager \<Rightarrow> 'v manager" where
  "handle_task env r m =
     (case heap m r of
        None \<Rightarrow> m
      | Some t \<Rightarrow>
          (case driver m of
             Some d \<Rightarrow> m\<lparr>heap := (heap m)(r \<mapsto> execute t d)\<rparr>
           | None \<Rightarrow>
               (let (ok, d') = setup_driver None (env (setup_calls m));
                    m1 = m\<lparr>driver := d', setup_calls := Suc (setup_calls m)\<rparr>
                in if \<not> ok then m1\<lparr>heap := (heap m)(r \<mapsto> fail_setup t)\<rparr>
                   else (case d' of
                           Some d \<Rightarrow> m1\<lparr>heap := (heap m)(r \<mapsto> execute t d)\<rparr>
                         | None \<Rightarrow> m1))))"

text \<open>
  The worker loop over the queue as it stands: first in, first out, until the poison pill
  or until the queue is empty (the worker then idles on \<open>queue.get\<close>).
\<close>

fun worker_loop ::
  "(nat \<Rightarrow> approach list) \<Rightarrow> nat option list \<Rightarrow> 'v manager \<Rightarrow> 'v manager" where
  "worker_loop env [] m = m\<lparr>task_queue := []\<rparr>"
| "worker_loop env (None # q) m = m\<lparr>task_queue := q\<rparr>"
| "worker_loop env (Some r # q) m = worker_loop env q (handle_task env r m)"

definition worker_thread_func :: "(nat \<Rightarrow> approach list) \<Rightarrow> 'v manager \<Rightarrow> 'v manager" where
  "worker_thread_func env m = (if running m then worker_loop env (task_queue m) m else m)"

text \<open>
  \<open>execute_task\<close>: enqueue, then wait.  \<open>in_time\<close> says whether the worker reaches the
  task before the caller's timeout elapses.
\<close>

definition execute_task ::
  "(nat \<Rightarrow> approach list) \<Rightarrow> bool \<Rightarrow> 'v manager \<Rightarrow> (driver \<Rightarrow> exn + 'v) \<Rightarrow>
     (error + 'v option) \<times> 'v manager" where
  "execute_task env in_time m f =
     (case add_task m f of
        (Inl e, m') \<Rightarrow> (Inl e, m')
      | (Inr r, m') \<Rightarrow>
          (let m'' = (if in_time then worker_thread_func env m' else m')
           in (case heap m'' r of
                 Some t \<Rightarrow> (wait_for_completion t, m'')
               | None \<Rightarrow> (Inl TimeoutError, m''))))"

text \<open>Submitting several units of work, one \<open>add_task\<close> after the other.\<close>

fun submit_all ::
  "'v manager \<Rightarrow> (driver \<Rightarrow> exn + 'v) list \<Rightarrow> (error + nat) list \<times> 'v manager" where
  "submit_all m [] = ([], m)"
| "submit_all m (f # fs) =
     (case add_task m f of (r, m') \<Rightarrow> (case submit_all m' fs of (rs, m'') \<Rightarrow> (r # rs, m'')))"

text \<open>What the submitter of a unit of work is told once the worker is done with it.\<close>

definition outcome :: "driver \<Rightarrow> (driver \<Rightarrow> exn + 'v) \<Rightarrow> error + 'v option" where
  "outcome d f = (case f d of Inl e \<Rightarrow> Inl (TaskRaised e) | Inr v \<Rightarrow> Inr (Some v))"

definition delivered :: "'v manager \<Rightarrow> error + nat \<Rightarrow> error + 'v option" where
  "delivered m r =
     (case r of
        Inl e \<Rightarrow> Inl e
      | Inr n \<Rightarrow> (case heap m n of Some t \<Rightarrow> wait_for_completion t | None \<Rightarrow> Inl TimeoutError))"

text \<open>The session is there, or the next call of \<open>_setup_driver\<close> creates it.\<close>

definition ready :: "(nat \<Rightarrow> approach list) \<Rightarrow> 'v manager \<Rightarrow> driver \<Rightarrow> bool" where
  "ready env m d \<longleftrightarrow>
     driver m = Some d \<or>
     (driver m = None \<and> setup_driver None (env (setup_calls m)) = (True, Some d))"

text \<open>Three units of work, the second of which raises, and an environment whose first
  strategy fails.\<close>

definition demo_units :: "(driver \<Rightarrow> exn + nat) list" where
  "demo_units = [\<lambda>d. Inr 1, \<lambda>d. Inl (Exn ''boom''), \<lambda>d. Inr 3]"

definition demo_env :: "nat \<Rightarrow> approach list" where
  "demo_env n = [ChromeFailed (Exn ''version''), Ready 7, Ready 8]"

section \<open>RPC data source: retry helper (solana\_rpc\_client.py)\<close>

definition SOLANA_RPC_URLS :: "string list" where
  "SOLANA_RPC_URLS = [''https://api.mainnet-beta.solana.com'']"

text \<open>
  The part of \<open>SolanaRPCClient\<close> that the retry helper reads and writes: the endpoint pool
  and the selected endpoint (\<open>self.client\<close> is rebuilt from it).  \<open>random.choice\<close> is the
  parameter \<open>choice\<close>.
\<close>

record client =
  rpc_urls :: "string list"
  current_rpc_url :: string

definition new_client :: "(string list \<Rightarrow> string) \<Rightarrow> client" where
  "new_client choice = \<lparr>rpc_urls = SOLANA_RPC_URLS, current_rpc_url = choice SOLANA_RPC_URLS\<rparr>"

text \<open>\<open>_switch_rpc_url\<close>: another endpoint of the pool if there is one.\<close>

definition switch_rpc_url :: "(string list \<Rightarrow> string) \<Rightarrow> client \<Rightarrow> bool \<times> client" where
  "switch_rpc_url choice c =
     (let remaining_urls = filter (\<lambda>url. url \<noteq> current_rpc_url c) (rpc_urls c)
      in if remaining_urls \<noteq> [] then (True, c\<lparr>current_rpc_url := choice remaining_urls\<rparr>)
         else (False, c))"

text \<open>
  What the helper does besides returning: it sleeps, it issues the request, it reports
  that no other endpoint is left.  \<open>Request a\<close> is the call of \<open>request_func\<close> in
  attempt \<open>a\<close>.
\<close>

datatype event = Sleep nat | Request int | NoAlternative

text \<open>
  The loop over \<open>range(max_retries + 1)\<close>.  \<open>req a\<close> is the usable response of the call
  in attempt \<open>a\<close>, and \<open>None\<close> when the call raises, or returns an empty response or one
  whose value is \<open>None\<close>.
\<close>

fun retry_loop ::
  "(string list \<Rightarrow> string) \<Rightarrow> (int \<Rightarrow> 'r option) \<Rightarrow> int list \<Rightarrow> client \<Rightarrow> event list \<Rightarrow>
     'r option \<times> client \<times> event list" where
  "retry_loop choice req [] c trace = (None, c, trace)"
| "retry_loop choice req (attempt # rest) c trace =
     (let trace1 = (if attempt > 0 then trace @ [Sleep (2 ^ nat attempt)] else trace);
          (switched, c1) = (if attempt = 1 then switch_rpc_url choice c else (True, c))
      in if \<not> switched then (None, c1, trace1 @ [NoAlternative])
         else (case req attempt of
                 Some response \<Rightarrow> (Some response, c1, trace1 @ [Request attempt])
               | None \<Rightarrow> retry_loop choice req rest c1 (trace1 @ [Request attempt])))"

definition retry_request ::
  "(string list \<Rightarrow> string) \<Rightarrow> (int \<Rightarrow> 'r option) \<Rightarrow> int \<Rightarrow> client \<Rightarrow>
     'r option \<times> client \<times> event list" where
  "retry_request choice req max_retries c = retry_loop choice req [0..max_retries] c []"

text \<open>The attempts in which a request was issued.\<close>

definition requests :: "event list \<Rightarrow> int list" where
  "requests trace = concat (map (\<lambda>e. case e of Request a \<Rightarrow> [a] | _ \<Rightarrow> []) trace)"

section \<open>Python string operations used by the scraper and the RPC client\<close>

text \<open>Texts are ASCII here; a \<open>char\<close> is one character of the Python string.\<close>

definition lower_char :: "char \<Rightarrow> char" where
  "lower_char c =
     (case map_of (zip ''ABCDEFGHIJKLMNOPQRSTUVWXYZ'' ''abcdefghijklmnopqrstuvwxyz'') c of
        Some l \<Rightarrow> l
      | None \<Rightarrow> c)"

definition lower :: "string \<Rightarrow> string" where
  "lower s = map lower_char s"

definition is_space :: "char \<Rightarrow> bool" where
  "is_space c \<longleftrightarrow>
     c \<in> set [CHR 0x09, CHR 0x0A, CHR 0x0B, CHR 0x0C, CHR 0x0D,
                CHR 0x1C, CHR 0x1D, CHR 0x1E, CHR 0x1F, CHR 0x20]"

definition strip :: "string \<Rightarrow> string" where
  "strip s = rev (dropWhile is_space (rev (dropWhile is_space s)))"

definition startswith :: "string \<Rightarrow> string \<Rightarrow> bool" where
  "startswith s p \<longleftrightarrow> take (length p) s = p"

text \<open>\<open>contains sub s\<close> is Python's \<open>sub in s\<close>.\<close>

fun contains :: "string \<Rightarrow> string \<Rightarrow> bool" where
  "contains sub [] = (sub = [])"
| "contains sub (c # cs) = (startswith (c # cs) sub \<or> contains sub cs)"

text \<open>
  \<open>s.split(sep)\<close> for a non-empty separator: the pieces between the occurrences of the
  separator, found from left to right without overlap.  \<open>acc\<close> is the piece being read,
  reversed.
\<close>

function split_aux :: "string \<Rightarrow> string \<Rightarrow> string \<Rightarrow> string list" where
  "split_aux sep [] acc = [rev acc]"
| "split_aux sep (c # cs) acc =
     (if sep \<noteq> [] \<and> startswith (c # cs) sep
      then rev acc # split_aux sep (drop (length sep) (c # cs)) []
      else split_aux sep cs (c # acc))"
  by pat_completeness auto
termination
  by (relation "measure (\<lambda>(sep, s, acc). length s)") auto

definition split :: "string \<Rightarrow> string \<Rightarrow> string list" where
  "split s sep = split_aux sep s []"

text \<open>\<open>s.split(sep)[-1]\<close>; \<open>split\<close> never returns the empty list.\<close>

definition split_last :: "string \<Rightarrow> string \<Rightarrow> string" where
  "split_last s sep = (case rev (split s sep) of [] \<Rightarrow> s | x # _ \<Rightarrow> x)"

definition is_digit :: "char \<Rightarrow> bool" where
  "is_digit c \<longleftrightarrow> c \<in> set ''0123456789''"

definition digit_val :: "char \<Rightarrow> int" where
  "digit_val c = (case map_of (zip ''0123456789'' [0, 1, 2, 3, 4, 5, 6, 7, 8, 9]) c of
                    Some v \<Rightarrow> v | None \<Rightarrow> 0)"

text \<open>\<open>int(ds)\<close> for a string of digits.\<close>

definition int_of_digits :: "string \<Rightarrow> int" where
  "int_of_digits ds = foldl (\<lambda>n c. 10 * n + digit_val c) 0 ds"

text \<open>
  \<open>int(re.findall(r'\d+', s)[0])\<close>: the first run of digits, read as a number;
  \<open>None\<close> when there is no digit, where Python raises \<open>IndexError\<close>.
\<close>

definition first_number :: "string \<Rightarrow> int option" where
  "first_number s =
     (case takeWhile is_digit (dropWhile (\<lambda>c. \<not> is_digit c) s) of
        [] \<Rightarrow> None
      | ds \<Rightarrow> Some (int_of_digits ds))"

section \<open>Scrape data source: time texts (solscan\_scraper.py)\<close>

text \<open>
  An instant is a number of microseconds since the epoch, in UTC.  \<open>timedelta\<close> holds at
  most 999999999 days and \<open>datetime\<close> spans the years 1 to 9999; beyond either, Python raises
  \<open>OverflowError\<close>, which is \<open>None\<close> here.
\<close>

definition second_us :: int where "second_us = 1000000"
definition minute_us :: int where "minute_us = 60 * second_us"
definition hour_us :: int where "hour_us = 3600 * second_us"
definition day_us :: int where "day_us = 86400 * second_us"
definition week_us :: int where "week_us = 7 * day_us"

definition datetime_min :: int where
  "datetime_min = - 62135596800 * second_us"

definition datetime_max :: int where
  "datetime_max = 253402300799999999"

definition minus_timedelta :: "int \<Rightarrow> int \<Rightarrow> int option" where
  "minus_timedelta now us =
     (if us div day_us > 999999999 \<or> us div day_us < - 999999999 \<or>
         now - us < datetime_min \<or> now - us > datetime_max then None else Some (now - us))"

text \<open>
  How the relative branch of \<open>parse_time_text\<close> ends: it returns an instant, it raises
  (caught by the outer handler), or it leaves the text to the absolute formats.
\<close>

datatype relative = Returned int | Raised | FallThrough

definition ago :: "int \<Rightarrow> string \<Rightarrow> int \<Rightarrow> relative" where
  "ago now text unit =
     (case first_number text of
        None \<Rightarrow> Raised
      | Some n \<Rightarrow> (case minus_timedelta now (n * unit) of None \<Rightarrow> Raised | Some t \<Rightarrow> Returned t))"

definition parse_relative :: "int \<Rightarrow> string \<Rightarrow> relative" where
  "parse_relative now time_text =
     (let time_text_lower = lower time_text in
      if contains ''ago'' time_text_lower then
        if contains ''just now'' time_text_lower then Returned now
        else if contains ''sec'' time_text_lower \<or> contains ''second'' time_text_lower
          then ago now time_text second_us
        else if contains ''min'' time_text_lower \<or> contains ''minute'' time_text_lower
          then ago now time_text minute_us
        else if contains ''hr'' time_text_lower then ago now time_text hour_us
        else if contains ''day'' time_text_lower then ago now time_text day_us
        else if contains ''week'' time_text_lower then ago now time_text week_us
        else if contains ''month'' time_text_lower then ago now time_text (30 * day_us)
        else if contains ''year'' time_text_lower then ago now time_text (365 * day_us)
        else FallThrough
      else FallThrough)"

definition date_formats :: "string list" where
  "date_formats =
     [''%b %d, %Y %I:%M %p'', ''%B %d, %Y %I:%M %p'', ''%Y-%m-%d %H:%M:%S'',
      ''%Y-%m-%d %H:%M'', ''%d/%m/%Y %H:%M:%S'', ''%m/%d/%Y %H:%M:%S'']"

text \<open>
  The loop over the absolute formats.  \<open>strptime text fmt\<close> is the library's
  \<open>datetime.strptime\<close>, read in UTC; \<open>None\<close> is its \<open>ValueError\<close>.
\<close>

fun try_formats :: "(string \<Rightarrow> string \<Rightarrow> int option) \<Rightarrow> string \<Rightarrow> string list \<Rightarrow> int option" where
  "try_formats strptime text [] = None"
| "try_formats strptime text (fmt # fmts) =
     (case strptime text fmt of Some t \<Rightarrow> Some t | None \<Rightarrow> try_formats strptime text fmts)"

datatype logged = Silent | Warning | Error

text \<open>
  \<open>parse_time_text\<close>.  \<open>now\<close> is the clock read at the start, \<open>now_err\<close> the clock read
  again by the outer exception handler.  The result is the instant and what was printed.
\<close>

definition parse_time_text ::
  "(string \<Rightarrow> string \<Rightarrow> int option) \<Rightarrow> int \<Rightarrow> int \<Rightarrow> string \<Rightarrow> int \<times> logged" where
  "parse_time_text strptime now now_err time_text =
     (let text = strip time_text in
      case parse_relative now text of
        Returned t \<Rightarrow> (t, Silent)
      | Raised \<Rightarrow> (now_err, Error)
      | FallThrough \<Rightarrow>
          (case try_formats strptime text date_formats of
             Some t \<Rightarrow> (t, Silent)
           | None \<Rightarrow> (now, Warning)))"

text \<open>A \<open>strptime\<close> that rejects every text, for inputs that match none of the formats.\<close>

definition no_strptime :: "string \<Rightarrow> string \<Rightarrow> int option" where
  "no_strptime text fmt = None"

section \<open>Scrape data source: tables (solscan\_scraper.py)\<close>

definition AXIOM_PROGRAM_ID :: "string list" where
  "AXIOM_PROGRAM_ID =
     [''AxiomfHaWDemCFBLBayqnEnNwE6b7B2Qz3UmzMpgbMG6'',
      ''AxiomxSitiyXyPjKgJ9XSrdhsydtZsskZTEDam3PxKcC'']"

subsection \<open>Address discovery: \<open>extract_table_data_task\<close>\<close>

text \<open>
  A row of the program's transaction table, as far as the task reads it.  \<open>by_link\<close> is
  the target of the link in the sixth cell, \<open>None\<close> when the cell, the link or its target
  is missing (the row then raises and is skipped).  \<open>program_links\<close> are the targets of
  the links in the ninth cell, \<open>None\<close> when there is no ninth cell; a link without a
  target is \<open>None\<close> in the list.
\<close>

record addr_row =
  by_link :: "string option"
  program_links :: "string option list option"

text \<open>
  The loop over the program links: \<open>Some True\<close> at the first link that holds one of the
  program IDs, \<open>None\<close> when a link without target is reached first (\<open>TypeError\<close>).
\<close>

fun axiom_link :: "string list \<Rightarrow> string option list \<Rightarrow> bool option" where
  "axiom_link ids [] = Some False"
| "axiom_link ids (None # links) = None"
| "axiom_link ids (Some href # links) =
     (if list_ex (\<lambda>program_id. contains program_id href) ids then Some True
      else axiom_link ids links)"

text \<open>The address a row contributes, if any.\<close>

definition row_address :: "addr_row \<Rightarrow> string option" where
  "row_address row =
     (case by_link row of
        None \<Rightarrow> None
      | Some href \<Rightarrow>
          (let by_address = split_last href ''/account/'' in
           case program_links row of
             None \<Rightarrow> None
           | Some links \<Rightarrow>
               (case axiom_link AXIOM_PROGRAM_ID links of
                  Some True \<Rightarrow> Some by_address
                | _ \<Rightarrow> None)))"

text \<open>
  The loop over the rows of one page.  \<open>unique_addresses\<close> is a Python set, kept here as
  a list without repetition, in the order of insertion.
\<close>

fun rows_addresses :: "int \<Rightarrow> addr_row list \<Rightarrow> string list \<Rightarrow> string list" where
  "rows_addresses max_addresses [] unique_addresses = unique_addresses"
| "rows_addresses max_addresses (row # rows) unique_addresses =
     (case row_address row of
        None \<Rightarrow> rows_addresses max_addresses rows unique_addresses
      | Some by_address \<Rightarrow>
          if by_address \<in> set unique_addresses
          then rows_addresses max_addresses rows unique_addresses
          else if int (length (unique_addresses @ [by_address])) \<ge> max_addresses
            then unique_addresses @ [by_address]
            else rows_addresses max_addresses rows (unique_addresses @ [by_address]))"

datatype next_button = NextEnabled | NextDisabled | NextMissing

text \<open>What the browser shows when a page is read: no table in time, or a table.\<close>

datatype 'row page = TableMissing | Table "'row list" next_button

definition max_pages :: nat where
  "max_pages = 50"

text \<open>
  The loop over the pages; \<open>site k\<close> is what the browser shows in the \<open>k\<close>-th round.
  The result is the set of addresses and the number of pages processed.
\<close>

function pages_loop ::
  "(nat \<Rightarrow> addr_row page) \<Rightarrow> int \<Rightarrow> nat \<Rightarrow> string list \<Rightarrow> string list \<times> nat" where
  "pages_loop site max_addresses page_count unique_addresses =
     (if int (length unique_addresses) < max_addresses \<and> page_count < max_pages then
        (case site (Suc page_count) of
           TableMissing \<Rightarrow> (unique_addresses, Suc page_count)
         | Table rows next \<Rightarrow>
             (let found = rows_addresses max_addresses rows unique_addresses in
              if int (length found) < max_addresses \<and> next \<noteq> NextEnabled
              then (found, Suc page_count)
              else pages_loop site max_addresses (Suc page_count) found))
      else (unique_addresses, page_count))"
  by pat_completeness auto
termination
  by (relation "measure (\<lambda>(site, max_addresses, page_count, unique_addresses).
        max_pages - page_count)") auto

record address_result =
  program_id :: string
  unique_addresses :: "string list"
  total_found :: nat
  pages_processed :: nat
  target_count :: int

text \<open>
  The task.  The site either cannot be loaded, and the task raises, or it serves pages.
  The time stamp of the result is left out.
\<close>

datatype 'row site = Unreachable exn | Pages "nat \<Rightarrow> 'row page"

definition extract_table_data_task ::
  "addr_row site \<Rightarrow> string \<Rightarrow> int \<Rightarrow> driver \<Rightarrow> exn + address_result" where
  "extract_table_data_task site pid max_addresses d =
     (case site of
        Unreachable e \<Rightarrow> Inl e
      | Pages pages \<Rightarrow>
          (case pages_loop pages max_addresses 0 [] of
             (found, page_count) \<Rightarrow>
               Inr \<lparr>program_id = pid, unique_addresses = found, total_found = length found,
                    pages_processed = page_count, target_count = max_addresses\<rparr>))"

subsection \<open>Transaction history: \<open>extract_address_transactions_task\<close>\<close>

text \<open>
  The sixth cell of a row of the address's transaction table: the target of its link,
  the \<open>title\<close> and \<open>data-tooltip\<close> attributes of its spans, the text of a nested span,
  and its own text.
\<close>

record by_cell =
  link_href :: "string option"
  spans :: "(string option \<times> string option) list"
  nested_span_text :: "string option"
  cell_text :: string

fun first_long_attribute :: "(string option \<times> string option) list \<Rightarrow> string option" where
  "first_long_attribute [] = None"
| "first_long_attribute ((title, data_tooltip) # rest) =
     (case (case title of Some t \<Rightarrow> if t \<noteq> [] \<and> length t > 20 then Some t else None
                        | None \<Rightarrow> None) of
        Some t \<Rightarrow> Some t
      | None \<Rightarrow>
          (case (case data_tooltip of Some t \<Rightarrow> if t \<noteq> [] \<and> length t > 20 then Some t else None
                                    | None \<Rightarrow> None) of
             Some t \<Rightarrow> Some t
           | None \<Rightarrow> first_long_attribute rest))"

definition extract_full_address_from_by_field :: "by_cell \<Rightarrow> string" where
  "extract_full_address_from_by_field cell =
     (case (case link_href cell of
              Some href \<Rightarrow> if contains ''/account/'' href
                            then Some (split_last href ''/account/'') else None
            | None \<Rightarrow> None) of
        Some address \<Rightarrow> address
      | None \<Rightarrow>
          (case first_long_attribute (spans cell) of
             Some t \<Rightarrow> t
           | None \<Rightarrow>
               (case nested_span_text cell of
                  Some t \<Rightarrow> strip t
                | None \<Rightarrow> strip (cell_text cell))))"

text \<open>
  A row of that table.  \<open>signature_link\<close> and \<open>block_link\<close> are the link target of the
  second cell and the link text of the third, \<open>None\<close> when the link is missing;
  \<open>outer_html\<close> is the row's markup, \<open>None\<close> when it cannot be read.
\<close>

record tx_row =
  n_cells :: nat
  signature_link :: "string option"
  block_link :: "string option"
  time_cell :: string
  instructions_cell :: string
  by_field :: by_cell
  value_cell :: string
  fee_cell :: string
  programs_cell :: "string option list"
  outer_html :: "string option"

definition failure_indicators :: "string list" where
  "failure_indicators = [''failed'', ''error'', ''fail'', ''cancelled'']"

definition check_transaction_failed :: "string option \<Rightarrow> bool" where
  "check_transaction_failed html =
     (case html of
        None \<Rightarrow> False
      | Some h \<Rightarrow> list_ex (\<lambda>indicator. contains indicator (lower h)) failure_indicators)"

text \<open>
  The transaction record of the scrape source.  \<open>tx_timestamp\<close> is the parsed instant
  (the source stores its ISO-8601 text).
\<close>

record transaction =
  tx_signature :: string
  tx_block :: string
  tx_time :: string
  tx_timestamp :: "int option"
  tx_instructions :: "string list"
  tx_by :: string
  tx_value :: string
  tx_fee :: string
  tx_page :: nat

definition instructions_of :: "string \<Rightarrow> string list" where
  "instructions_of instructions_text =
     map strip (filter (\<lambda>inst. strip inst \<noteq> [] \<and> strip inst \<noteq> ''+'')
                       (split instructions_text [CHR 0x0A]))"

text \<open>
  One row: skipped (fewer than nine cells, or an exception), too old (the loop over the
  rows stops), read but not accepted, or accepted.
\<close>

datatype row_outcome = RowSkipped | RowTooOld | RowRejected | RowAccepted transaction

definition process_row ::
  "(string \<Rightarrow> string \<Rightarrow> int option) \<Rightarrow> int \<times> int \<Rightarrow> int \<Rightarrow> nat \<Rightarrow> tx_row \<Rightarrow> row_outcome" where
  "process_row strptime clock cutoff_time page_count row =
     (if n_cells row < 9 then RowSkipped
      else case signature_link row of
        None \<Rightarrow> RowSkipped
      | Some sig_href \<Rightarrow>
          (case block_link row of
             None \<Rightarrow> RowSkipped
           | Some block_text \<Rightarrow>
               (let signature = split_last sig_href ''/tx/'';
                    block_number = strip block_text;
                    time_text = strip (time_cell row);
                    transaction_time = fst (parse_time_text strptime (fst clock) (snd clock) time_text)
                in if transaction_time < cutoff_time then RowTooOld
                   else
                     (case axiom_link [''AxiomfHaWDemCFBLBayqnEnNwE6b7B2Qz3UmzMpgbMG6'']
                             (programs_cell row) of
                        None \<Rightarrow> RowSkipped
                      | Some axiom_found \<Rightarrow>
                          (let is_failed = check_transaction_failed (outer_html row) in
                           if axiom_found \<and> \<not> is_failed then
                             RowAccepted
                               \<lparr>tx_signature = signature, tx_block = block_number,
                                tx_time = time_text, tx_timestamp = Some transaction_time,
                                tx_instructions = instructions_of (strip (instructions_cell row)),
                                tx_by = extract_full_address_from_by_field (by_field row),
                                tx_value = strip (value_cell row),
                                tx_fee = strip (fee_cell row), tx_page = page_count\<rparr>
                           else RowRejected)))))"

text \<open>
  The loop over the rows of the page; \<open>clock i\<close> are the two readings of the clock that
  \<open>parse_time_text\<close> may take at row \<open>i\<close>.  The result is the list of transactions and
  the flag \<open>should_continue\<close>.
\<close>

fun tx_rows_loop ::
  "(string \<Rightarrow> string \<Rightarrow> int option) \<Rightarrow> (nat \<Rightarrow> int \<times> int) \<Rightarrow> int \<Rightarrow> nat \<Rightarrow> nat \<Rightarrow>
     tx_row list \<Rightarrow> transaction list \<Rightarrow> bool \<Rightarrow> transaction list \<times> bool" where
  "tx_rows_loop strptime clock cutoff_time page_count i [] transactions should_continue =
     (transactions, should_continue)"
| "tx_rows_loop strptime clock cutoff_time page_count i (row # rows) transactions should_continue =
     (case process_row strptime (clock i) cutoff_time page_count row of
        RowSkipped \<Rightarrow>
          tx_rows_loop strptime clock cutoff_time page_count (Suc i) rows transactions should_continue
      | RowTooOld \<Rightarrow> (transactions, False)
      | RowRejected \<Rightarrow>
          tx_rows_loop strptime clock cutoff_time page_count (Suc i) rows transactions True
      | RowAccepted t \<Rightarrow>
          tx_rows_loop strptime clock cutoff_time page_count (Suc i) rows (transactions @ [t]) True)"

record history_result =
  address_id :: string
  transactions :: "transaction list"
  history_total_found :: nat
  history_pages_processed :: nat
  days_scraped :: int

text \<open>
  The task.  Its page limit is 1, so one page is read; what the next-page control does
  afterwards does not reach the result.  \<open>now\<close> is the clock when the cut-off is
  computed.
\<close>

definition extract_address_transactions_task ::
  "(string \<Rightarrow> string \<Rightarrow> int option) \<Rightarrow> int \<Rightarrow> (nat \<Rightarrow> int \<times> int) \<Rightarrow> tx_row site \<Rightarrow>
     string \<Rightarrow> int \<Rightarrow> driver \<Rightarrow> exn + history_result" where
  "extract_address_transactions_task strptime now clock site address days d =
     (case site of
        Unreachable e \<Rightarrow> Inl e
      | Pages pages \<Rightarrow>
          (case minus_timedelta now (days * day_us) of
             None \<Rightarrow> Inl (Exn ''OverflowError'')
           | Some cutoff_time \<Rightarrow>
               (let found =
                      (case pages 1 of
                         TableMissing \<Rightarrow> []
                       | Table rows next \<Rightarrow>
                           fst (tx_rows_loop strptime clock cutoff_time 1 0 rows [] False))
                in Inr \<lparr>address_id = address, transactions = found,
                        history_total_found = length found, history_pages_processed = 1,
                        days_scraped = days\<rparr>)))"

text \<open>
  Rows for the examples: a row of the address table whose only program link leads to
  the given program, and a row of the program table signed by the given address.
\<close>

definition plain_by_cell :: "string \<Rightarrow> by_cell" where
  "plain_by_cell a =
     \<lparr>link_href = Some (''https://solscan.io/account/'' @ a), spans = [],
      nested_span_text = None, cell_text = take 10 a\<rparr>"

definition row_for_program :: "string \<Rightarrow> tx_row" where
  "row_for_program pid =
     \<lparr>n_cells = 9,
      signature_link = Some ''https://solscan.io/tx/5sig'',
      block_link = Some ''250000000'',
      time_cell = ''5 mins ago'',
      instructions_cell = ''swap'',
      by_field = plain_by_cell ''6xspgTx3zS1iYvFy73fWhbRTVtLfCqbAVJHxUxhurHvC'',
      value_cell = ''0.5'',
      fee_cell = ''0.000005'',
      programs_cell = [Some (''https://solscan.io/account/'' @ pid)],
      outer_html = Some ''<tr><td>ok</td></tr>''\<rparr>"

definition row_signed_by :: "string \<Rightarrow> addr_row" where
  "row_signed_by a =
     \<lparr>by_link = Some (''https://solscan.io/account/'' @ a),
      program_links =
        Some [Some ''https://solscan.io/account/AxiomfHaWDemCFBLBayqnEnNwE6b7B2Qz3UmzMpgbMG6'']\<rparr>"

section \<open>RPC data source: numbers and their texts (solana\_rpc\_client.py)\<close>

text \<open>
  Python's \<open>float\<close> is the IEEE binary64 format.  A float is modelled by the rational it
  denotes, and \<open>py_float q\<close> is the float nearest to \<open>q\<close>, ties to the even mantissa:
  the rounding that every float operation ends with.  Infinities, NaN, the sign of zero
  and subnormal numbers are not modelled; the amounts of this program stay far from
  them.
\<close>

text \<open>The number of binary digits of a positive integer.\<close>

function bitlength :: "int \<Rightarrow> int" where
  "bitlength n = (if n \<le> 0 then 0 else 1 + bitlength (n div 2))"
  by pat_completeness auto
termination
  by (relation "measure nat") auto

declare bitlength.simps [simp del]

definition pow2 :: "int \<Rightarrow> rat" where
  "pow2 k = (if k \<ge> 0 then 2 ^ nat k else 1 / 2 ^ nat (- k))"

definition round_half_even :: "rat \<Rightarrow> int" where
  "round_half_even x =
     (let f = \<lfloor>x\<rfloor>; r = x - of_int f
      in if r < 1 / 2 then f else if r > 1 / 2 then f + 1 else if even f then f else f + 1)"

text \<open>The exponent \<open>e\<close> with \<open>2 ^ e \<le> a < 2 ^ (e + 1)\<close>, for positive \<open>a\<close>.\<close>

definition float_exponent :: "rat \<Rightarrow> int" where
  "float_exponent a =
     (case quotient_of a of
        (p, d) \<Rightarrow>
          (let k = bitlength p - bitlength d
           in if pow2 k \<le> a then k else k - 1))"

definition py_float :: "rat \<Rightarrow> rat" where
  "py_float q =
     (if q = 0 then 0
      else (let a = \<bar>q\<bar>; s = pow2 (float_exponent a - 52)
            in sgn q * of_int (round_half_even (a / s)) * s))"

text \<open>\<open>n / 1e9\<close> for an integer \<open>n\<close>: the integer becomes a float, then the division.\<close>

definition lamports_to_sol :: "int \<Rightarrow> rat" where
  "lamports_to_sol n = py_float (py_float (of_int n) / 1000000000)"

text \<open>Decimal digits of a non-negative integer, as \<open>str\<close> gives them.\<close>

definition digit_char :: "int \<Rightarrow> char" where
  "digit_char d = ''0123456789'' ! nat (d mod 10)"

function digits_of :: "int \<Rightarrow> string" where
  "digits_of n = (if n < 10 then [digit_char n] else digits_of (n div 10) @ [digit_char (n mod 10)])"
  by pat_completeness auto
termination
  by (relation "measure nat") auto

declare digits_of.simps [simp del]

definition str_int :: "int \<Rightarrow> string" where
  "str_int i = (if i < 0 then ''-'' @ digits_of (- i) else digits_of i)"

definition zero_pad :: "nat \<Rightarrow> string \<Rightarrow> string" where
  "zero_pad k s = replicate (k - length s) (CHR ''0'') @ s"

text \<open>The thousands separator of the \<open>,\<close> format option, on the reversed digits.\<close>

fun group3 :: "string \<Rightarrow> string" where
  "group3 (a # b # c # d # rest) = a # b # c # CHR '','' # group3 (d # rest)"
| "group3 s = s"

definition commas :: "string \<Rightarrow> string" where
  "commas s = rev (group3 (rev s))"

text \<open>
  The format specifications \<open>.6f\<close>, \<open>,.6f\<close>, \<open>+,.6f\<close> and their 9-place variants:
  \<open>signed\<close> asks for the sign of positive numbers, \<open>comma\<close> for the separator,
  \<open>places\<close> is the precision.  The number is rounded to the precision, ties to even.
\<close>

definition format_f :: "bool \<Rightarrow> bool \<Rightarrow> nat \<Rightarrow> rat \<Rightarrow> string" where
  "format_f signed comma places x =
     (let n = round_half_even (\<bar>x\<bar> * 10 ^ places);
          int_part = digits_of (n div 10 ^ places);
          frac_part = zero_pad places (digits_of (n mod 10 ^ places))
      in (if x < 0 then ''-'' else if signed then ''+'' else '''') @
         (if comma then commas int_part else int_part) @ ''.'' @ frac_part)"

text \<open>\<open>s.replace('+', '+' if keep else '')\<close>.\<close>

definition replace_plus :: "bool \<Rightarrow> string \<Rightarrow> string" where
  "replace_plus keep s = (if keep then s else filter (\<lambda>c. c \<noteq> CHR ''+'') s)"

text \<open>
  A text with exactly six decimal places: an optional minus sign, at least one digit, a
  point, six digits.
\<close>

definition unsigned_six_decimals :: "string \<Rightarrow> bool" where
  "unsigned_six_decimals s \<longleftrightarrow>
     length s \<ge> 8 \<and> s ! (length s - 7) = CHR ''.'' \<and>
     list_all is_digit (take (length s - 7) s) \<and> list_all is_digit (drop (length s - 6) s)"

definition six_decimals :: "string \<Rightarrow> bool" where
  "six_decimals s \<longleftrightarrow>
     (case s of
        [] \<Rightarrow> False
      | c # cs \<Rightarrow> if c = CHR ''-'' then unsigned_six_decimals cs else unsigned_six_decimals s)"

section \<open>RPC data source: transactions (solana\_rpc\_client.py)\<close>

definition AXIOM_PROGRAM_IDS :: "string list" where
  "AXIOM_PROGRAM_IDS =
     [''AxiomfHaWDemCFBLBayqnEnNwE6b7B2Qz3UmzMpgbMG6'',
      ''AxiomxSitiyXyPjKgJ9XSrdhsydtZsskZTEDam3PxKcC'']"

text \<open>
  A token balance entry of the transaction's metadata.  \<open>ui_amount\<close> is the value of
  \<open>float\<close> on the entry's \<open>uiAmountString\<close>, \<open>None\<close> when \<open>float\<close> raises
  \<open>ValueError\<close>.  The node writes \<open>uiAmountString\<close> as a decimal numeral, so the
  value is a finite number; the texts \<open>inf\<close> and \<open>nan\<close>, which \<open>float\<close> accepts
  as well and which no conforming node sends, have no counterpart in this type, and
  nothing is stated about them.
\<close>

record token_balance =
  account_index :: int
  owner :: string
  mint :: string
  ui_amount :: "rat option"

text \<open>The metadata; the lamport amounts are Python integers.\<close>

record tx_meta =
  fee :: int
  pre_balances :: "int list"
  post_balances :: "int list"
  pre_token_balances :: "token_balance list"
  post_token_balances :: "token_balance list"
  log_messages :: "string list"

text \<open>
  The value of a \<open>getTransaction\<close> response, as far as the client reads it: slot, block
  time, metadata, and from the message the account keys, the signatures and the number
  of instructions.
\<close>

record rpc_tx =
  slot :: int
  block_time :: "int option"
  meta :: "tx_meta option"
  account_keys :: "string list"
  signatures :: "string list"
  n_instructions :: nat

text \<open>An entry of a \<open>getSignaturesForAddress\<close> response.\<close>

record sig_info =
  sig_signature :: string
  sig_slot :: int
  sig_err :: bool
  sig_block_time :: "int option"

text \<open>
  \<open>datetime.fromtimestamp(t, tz=timezone.utc)\<close>: the instant, or \<open>None\<close> where Python
  raises because the year is out of range.
\<close>

definition fromtimestamp :: "int \<Rightarrow> int option" where
  "fromtimestamp t =
     (if t * second_us < datetime_min \<or> t * second_us > datetime_max then None
      else Some (t * second_us))"

text \<open>\<open>_format_time_ago\<close>, with the clock reading \<open>now\<close>.\<close>

definition format_time_ago :: "int \<Rightarrow> int \<Rightarrow> string" where
  "format_time_ago now dt =
     (let diff = now - dt;
          days = diff div day_us;
          seconds = (diff mod day_us) div second_us
      in if days > 0 then str_int days @ '' day'' @ (if days > 1 then ''s'' else '''') @ '' ago''
         else if seconds > 3600 then
           (let hours = seconds div 3600
            in str_int hours @ '' hr'' @ (if hours > 1 then ''s'' else '''') @ '' ago'')
         else if seconds > 60 then
           (let minutes = seconds div 60
            in str_int minutes @ '' min'' @ (if minutes > 1 then ''s'' else '''') @ '' ago'')
         else ''just now'')"

text \<open>\<open>_extract_addresses_from_transaction\<close>: the signer, unless it is a program ID.\<close>

definition extract_addresses_from_transaction :: "rpc_tx \<Rightarrow> string list" where
  "extract_addresses_from_transaction tx =
     (case account_keys tx of
        [] \<Rightarrow> []
      | signer # _ \<Rightarrow> if signer \<noteq> [] \<and> signer \<notin> set AXIOM_PROGRAM_IDS then [signer] else [])"

definition transaction_involves_axiom :: "rpc_tx \<Rightarrow> bool" where
  "transaction_involves_axiom tx = list_ex (\<lambda>key_str. key_str \<in> set AXIOM_PROGRAM_IDS) (account_keys tx)"

text \<open>\<open>_extract_instructions\<close>: the loop over the log messages, then the fallbacks.\<close>

fun scan_logs :: "string list \<Rightarrow> string list \<Rightarrow> bool \<Rightarrow> bool \<Rightarrow> string list" where
  "scan_logs [] extracted found_buy found_sell = extracted"
| "scan_logs (l # logs) extracted found_buy found_sell =
     (let log_lower = lower l
      in if contains ''instruction: buy'' log_lower \<and> \<not> found_buy
           then scan_logs logs (extracted @ [''buy'']) True found_sell
         else if contains ''instruction: sell'' log_lower \<and> \<not> found_sell
           then scan_logs logs (extracted @ [''sell'']) found_buy True
         else if contains ''swap'' log_lower
           then scan_logs logs
                  (if ''swap'' \<notin> set extracted then extracted @ [''swap''] else extracted)
                  found_buy found_sell
         else scan_logs logs extracted found_buy found_sell)"

definition extract_instructions :: "rpc_tx \<Rightarrow> string list" where
  "extract_instructions tx =
     (let log_messages_list = (case meta tx of Some m \<Rightarrow> log_messages m | None \<Rightarrow> []);
          extracted = scan_logs log_messages_list [] False False;
          extracted' =
            (if extracted = [] \<and> n_instructions tx > 1
             then [digits_of (int (n_instructions tx)) @ ''+''] else extracted)
      in if extracted' \<noteq> [] then extracted' else [''Unknown''])"

definition extract_signer :: "rpc_tx \<Rightarrow> string" where
  "extract_signer tx = (case account_keys tx of [] \<Rightarrow> '''' | signer # _ \<Rightarrow> signer)"

text \<open>
  \<open>_extract_transaction_value\<close>: the largest absolute change of a SOL balance, in SOL.
\<close>

definition max_change_step :: "rat \<Rightarrow> int \<times> int \<Rightarrow> rat" where
  "max_change_step max_change pp =
     (let change = lamports_to_sol \<bar>snd pp - fst pp\<bar>
      in if change > max_change then change else max_change)"

definition extract_transaction_value :: "rpc_tx \<Rightarrow> rat" where
  "extract_transaction_value tx =
     (case meta tx of
        None \<Rightarrow> 0
      | Some m \<Rightarrow>
          if pre_balances m \<noteq> [] \<and> post_balances m \<noteq> []
          then foldl max_change_step 0 (zip (pre_balances m) (post_balances m))
          else 0)"

text \<open>The transaction record of the RPC source, without its balance changes.\<close>

definition value_text :: "rat \<Rightarrow> string" where
  "value_text value_sol = (if value_sol \<noteq> 0 then format_f False False 6 value_sol else ''0'')"

definition fee_text :: "rpc_tx \<Rightarrow> string" where
  "fee_text tx =
     format_f False False 6
       (lamports_to_sol (case meta tx of Some m \<Rightarrow> fee m | None \<Rightarrow> 0))"

text \<open>
  \<open>_parse_transaction\<close>, with the clock reading \<open>now\<close>; \<open>Inl\<close> when the block time is
  beyond what \<open>datetime\<close> holds and \<open>fromtimestamp\<close> raises.
\<close>

definition parse_transaction :: "int \<Rightarrow> rpc_tx \<Rightarrow> sig_info \<Rightarrow> exn + transaction" where
  "parse_transaction now tx info =
     (let block = (if sig_slot info \<noteq> 0 then sig_slot info else slot tx);
          stamped =
            (case block_time tx of
               None \<Rightarrow> Some (''Unknown'', None)
             | Some t \<Rightarrow>
                 if t = 0 then Some (''Unknown'', None)
                 else (case fromtimestamp t of
                         None \<Rightarrow> None
                       | Some instant \<Rightarrow> Some (format_time_ago now instant, Some instant)))
      in case stamped of
           None \<Rightarrow> Inl (Exn ''year out of range'')
         | Some (time_text, timestamp) \<Rightarrow>
             Inr \<lparr>tx_signature = sig_signature info, tx_block = str_int block,
                  tx_time = time_text, tx_timestamp = timestamp,
                  tx_instructions = extract_instructions tx, tx_by = extract_signer tx,
                  tx_value = value_text (extract_transaction_value tx),
                  tx_fee = fee_text tx, tx_page = 1\<rparr>)"

section \<open>RPC data source: balance changes (solana\_rpc\_client.py)\<close>

record balance_change =
  bc_signature :: string
  bc_block :: string
  bc_time :: string
  bc_amount :: string
  bc_post_balance :: string
  bc_token_name :: string
  bc_token_address :: string

text \<open>The position of the inspected address among the account keys, or \<open>-1\<close>.\<close>

fun index_of :: "string \<Rightarrow> string list \<Rightarrow> int \<Rightarrow> int" where
  "index_of address [] i = - 1"
| "index_of address (key_str # keys) i = (if key_str = address then i else index_of address keys (i + 1))"

text \<open>A token balance entry concerns the address by its account index or by its owner.\<close>

definition concerns :: "string \<Rightarrow> int \<Rightarrow> token_balance \<Rightarrow> bool" where
  "concerns address address_idx item \<longleftrightarrow> account_index item = address_idx \<or> owner item = address"

definition amount_val :: "token_balance \<Rightarrow> rat" where
  "amount_val item = (case ui_amount item of Some a \<Rightarrow> a | None \<Rightarrow> 0)"

text \<open>
  \<open>token_bal_changes\<close> is a Python dictionary from the mint to the pre and post amounts;
  it is iterated in the order of insertion, so it is kept as an association list.
  \<open>AList.update\<close> replaces the value of a key in place and appends a new key at the
  end, as the assignment to a dictionary entry does.
\<close>

definition merge_pre ::
  "string \<Rightarrow> int \<Rightarrow> (string \<times> rat \<times> rat) list \<Rightarrow> token_balance \<Rightarrow> (string \<times> rat \<times> rat) list" where
  "merge_pre address address_idx changes item =
     (if concerns address address_idx item
      then AList.update (mint item) (amount_val item, 0) changes
      else changes)"

definition merge_post ::
  "string \<Rightarrow> int \<Rightarrow> (string \<times> rat \<times> rat) list \<Rightarrow> token_balance \<Rightarrow> (string \<times> rat \<times> rat) list" where
  "merge_post address address_idx changes item =
     (if concerns address address_idx item
      then (case map_of changes (mint item) of
              Some (pre, post) \<Rightarrow> AList.update (mint item) (pre, amount_val item) changes
            | None \<Rightarrow> AList.update (mint item) (0, amount_val item) changes)
      else changes)"

definition token_bal_changes ::
  "string \<Rightarrow> int \<Rightarrow> token_balance list \<Rightarrow> token_balance list \<Rightarrow> (string \<times> rat \<times> rat) list" where
  "token_bal_changes address address_idx pre_token_bals post_token_bals =
     foldl (merge_post address address_idx)
       (foldl (merge_pre address address_idx) [] pre_token_bals) post_token_bals"

text \<open>
  The record of one mint, emitted when the change is not zero.  \<open>get_token_name\<close> is
  \<open>_get_token_name\<close>, which asks the node for the mint's metadata.
\<close>

definition token_change ::
  "(string \<Rightarrow> string) \<Rightarrow> string \<Rightarrow> string \<Rightarrow> string \<Rightarrow> string \<times> rat \<times> rat \<Rightarrow> balance_change list" where
  "token_change get_token_name sig block time_text entry =
     (case entry of
        (mint_addr, pre, post) \<Rightarrow>
          (let change_val = py_float (post - pre)
           in if change_val \<noteq> 0 then
                [\<lparr>bc_signature = sig, bc_block = block, bc_time = time_text,
                  bc_amount = replace_plus (change_val > 0) (format_f True True 6 change_val),
                  bc_post_balance = format_f False True 6 post,
                  bc_token_name = get_token_name mint_addr,
                  bc_token_address = mint_addr\<rparr>]
              else []))"

definition token_changes ::
  "(string \<Rightarrow> string) \<Rightarrow> string \<Rightarrow> string \<Rightarrow> string \<Rightarrow> (string \<times> rat \<times> rat) list \<Rightarrow>
     balance_change list" where
  "token_changes get_token_name sig block time_text changes =
     concat (map (token_change get_token_name sig block time_text) changes)"

text \<open>The record of the native balance of the address, emitted when it changes.\<close>

definition sol_change ::
  "string \<Rightarrow> string \<Rightarrow> string \<Rightarrow> int \<Rightarrow> int list \<Rightarrow> int list \<Rightarrow> balance_change list" where
  "sol_change sig block time_text address_idx pre_sol_bals post_sol_bals =
     (if address_idx \<ge> 0 \<and> address_idx < int (length pre_sol_bals) \<and>
         address_idx < int (length post_sol_bals) then
        (let pre_sol_val = lamports_to_sol (pre_sol_bals ! nat address_idx);
             post_sol_val = lamports_to_sol (post_sol_bals ! nat address_idx);
             sol_change_val = py_float (post_sol_val - pre_sol_val)
         in if sol_change_val \<noteq> 0 then
              [\<lparr>bc_signature = sig, bc_block = block, bc_time = time_text,
                bc_amount = replace_plus (sol_change_val > 0) (format_f True True 9 sol_change_val),
                bc_post_balance = format_f False True 9 post_sol_val,
                bc_token_name = ''SOL'',
                bc_token_address = ''So11111111111111111111111111111111111111111''\<rparr>]
            else [])
      else [])"

text \<open>
  \<open>_extract_balance_changes\<close>, with the clock reading \<open>now\<close>; \<open>Inl\<close> when
  \<open>fromtimestamp\<close> raises on the block time.
\<close>

definition extract_balance_changes ::
  "(string \<Rightarrow> string) \<Rightarrow> int \<Rightarrow> rpc_tx \<Rightarrow> string \<Rightarrow> exn + balance_change list" where
  "extract_balance_changes get_token_name now tx address =
     (let pre_token_bals = (case meta tx of Some m \<Rightarrow> pre_token_balances m | None \<Rightarrow> []);
          post_token_bals = (case meta tx of Some m \<Rightarrow> post_token_balances m | None \<Rightarrow> []);
          pre_sol_bals = (case meta tx of Some m \<Rightarrow> pre_balances m | None \<Rightarrow> []);
          post_sol_bals = (case meta tx of Some m \<Rightarrow> post_balances m | None \<Rightarrow> []);
          sig = (case signatures tx of [] \<Rightarrow> '''' | s # _ \<Rightarrow> s);
          address_idx = index_of address (account_keys tx) 0;
          stamped =
            (case block_time tx of
               None \<Rightarrow> Some ''Unknown''
             | Some t \<Rightarrow>
                 if t = 0 then Some ''Unknown''
                 else map_option (format_time_ago now) (fromtimestamp t))
      in case stamped of
           None \<Rightarrow> Inl (Exn ''year out of range'')
         | Some time_text \<Rightarrow>
             Inr (token_changes get_token_name sig (str_int (slot tx)) time_text
                    (token_bal_changes address address_idx pre_token_bals post_token_bals) @
                  sol_change sig (str_int (slot tx)) time_text address_idx
                    pre_sol_bals post_sol_bals))"

text \<open>
  For a transaction and an inspected address: the merged table of token amounts, and
  the pre and post SOL balance of the address when its account index is in range.
\<close>

definition tx_token_bal_changes :: "rpc_tx \<Rightarrow> string \<Rightarrow> (string \<times> rat \<times> rat) list" where
  "tx_token_bal_changes tx address =
     token_bal_changes address (index_of address (account_keys tx) 0)
       (case meta tx of Some m \<Rightarrow> pre_token_balances m | None \<Rightarrow> [])
       (case meta tx of Some m \<Rightarrow> post_token_balances m | None \<Rightarrow> [])"

definition tx_sol_balances :: "rpc_tx \<Rightarrow> string \<Rightarrow> (int \<times> int) option" where
  "tx_sol_balances tx address =
     (let address_idx = index_of address (account_keys tx) 0;
          pre_sol_bals = (case meta tx of Some m \<Rightarrow> pre_balances m | None \<Rightarrow> []);
          post_sol_bals = (case meta tx of Some m \<Rightarrow> post_balances m | None \<Rightarrow> [])
      in if address_idx \<ge> 0 \<and> address_idx < int (length pre_sol_bals) \<and>
            address_idx < int (length post_sol_bals)
         then Some (pre_sol_bals ! nat address_idx, post_sol_bals ! nat address_idx)
         else None)"

text \<open>
  What makes a record of the result the change record of its own mint: the merged table
  has an entry for the record's token address, the post amount of the entry differs from
  its pre amount, and the record's amount, post balance and token name are those of that
  entry.  Likewise for the record of the native balance, with the SOL balances of the
  inspected address.
\<close>

definition token_record ::
  "(string \<Rightarrow> string) \<Rightarrow> (string \<times> rat \<times> rat) list \<Rightarrow> balance_change \<Rightarrow> bool" where
  "token_record get_token_name changes r \<longleftrightarrow>
     (case map_of changes (bc_token_address r) of
        None \<Rightarrow> False
      | Some (pre, post) \<Rightarrow>
          post \<noteq> pre \<and> py_float (post - pre) \<noteq> 0 \<and>
          bc_amount r =
            replace_plus (py_float (post - pre) > 0) (format_f True True 6 (py_float (post - pre))) \<and>
          bc_post_balance r = format_f False True 6 post \<and>
          bc_token_name r = get_token_name (bc_token_address r))"

definition sol_record :: "(int \<times> int) option \<Rightarrow> balance_change \<Rightarrow> bool" where
  "sol_record balances r \<longleftrightarrow>
     (case balances of
        None \<Rightarrow> False
      | Some (pre, post) \<Rightarrow>
          post \<noteq> pre \<and>
          py_float (lamports_to_sol post - lamports_to_sol pre) \<noteq> 0 \<and>
          bc_amount r =
            replace_plus (py_float (lamports_to_sol post - lamports_to_sol pre) > 0)
              (format_f True True 9 (py_float (lamports_to_sol post - lamports_to_sol pre))) \<and>
          bc_post_balance r = format_f False True 9 (lamports_to_sol post) \<and>
          bc_token_name r = ''SOL'' \<and>
          bc_token_address r = ''So11111111111111111111111111111111111111111'')"

text \<open>A mint appears in a list when an entry that concerns the address carries it.\<close>

definition appears :: "string \<Rightarrow> int \<Rightarrow> string \<Rightarrow> token_balance list \<Rightarrow> bool" where
  "appears address address_idx mint_addr items \<longleftrightarrow>
     mint_addr \<in> set (map mint (filter (concerns address address_idx) items))"

text \<open>
  The amount that the last entry of a list for a mint carries, among the entries that
  concern the address; \<open>None\<close> when the mint does not appear.
\<close>

definition last_amount :: "string \<Rightarrow> int \<Rightarrow> string \<Rightarrow> token_balance list \<Rightarrow> rat option" where
  "last_amount address address_idx mint_addr items =
     map_option amount_val
       (find (\<lambda>item. mint item = mint_addr) (rev (filter (concerns address address_idx) items)))"

text \<open>A transaction for the examples: one account, whose balances are given.\<close>

definition demo_meta :: "int \<Rightarrow> int list \<Rightarrow> int list \<Rightarrow> token_balance list \<Rightarrow> token_balance list \<Rightarrow> tx_meta" where
  "demo_meta f pre post pre_tokens post_tokens =
     \<lparr>fee = f, pre_balances = pre, post_balances = post, pre_token_balances = pre_tokens,
      post_token_balances = post_tokens, log_messages = [''Program log: Instruction: Buy'']\<rparr>"

definition demo_tx :: "tx_meta \<Rightarrow> rpc_tx" where
  "demo_tx m =
     \<lparr>slot = 250000000, block_time = Some 1699990000, meta = Some m,
      account_keys = [''6xspgTx3zS1iYvFy73fWhbRTVtLfCqbAVJHxUxhurHvC'',
                      ''AxiomfHaWDemCFBLBayqnEnNwE6b7B2Qz3UmzMpgbMG6''],
      signatures = [''5sig''], n_instructions = 2\<rparr>"

definition demo_info :: sig_info where
  "demo_info = \<lparr>sig_signature = ''5sig'', sig_slot = 250000000, sig_err = False,
                 sig_block_time = Some 1699990000\<rparr>"

definition token_entry :: "string \<Rightarrow> rat \<Rightarrow> token_balance" where
  "token_entry m a =
     \<lparr>account_index = 3, owner = ''6xspgTx3zS1iYvFy73fWhbRTVtLfCqbAVJHxUxhurHvC'', mint = m,
      ui_amount = Some a\<rparr>"

definition demo_address :: string where
  "demo_address = ''6xspgTx3zS1iYvFy73fWhbRTVtLfCqbAVJHxUxhurHvC''"

text \<open>
  Token balance lists for the examples: mint \<open>X\<close> is in both lists with the amount 100,
  mint \<open>Y\<close> only in the pre list, mint \<open>Z\<close> only in the post list.
\<close>

definition demo_pre_tokens :: "token_balance list" where
  "demo_pre_tokens = [token_entry ''X'' 100, token_entry ''Y'' 5]"

definition demo_post_tokens :: "token_balance list" where
  "demo_post_tokens = [token_entry ''X'' 100, token_entry ''Z'' (15 / 2)]"

definition demo_balance_tx :: rpc_tx where
  "demo_balance_tx =
     demo_tx (demo_meta 5000 [2000000000, 5] [1500000000, 6] demo_pre_tokens demo_post_tokens)"

definition demo_balance_changes :: "balance_change list" where
  "demo_balance_changes =
     [\<lparr>bc_signature = ''5sig'', bc_block = ''250000000'', bc_time = ''2 hrs ago'',
       bc_amount = ''-5.000000'', bc_post_balance = ''0.000000'', bc_token_name = ''TKN'',
       bc_token_address = ''Y''\<rparr>,
      \<lparr>bc_signature = ''5sig'', bc_block = ''250000000'', bc_time = ''2 hrs ago'',
       bc_amount = ''+7.500000'', bc_post_balance = ''7.500000'', bc_token_name = ''TKN'',
       bc_token_address = ''Z''\<rparr>,
      \<lparr>bc_signature = ''5sig'', bc_block = ''250000000'', bc_time = ''2 hrs ago'',
       bc_amount = ''-0.500000000'', bc_post_balance = ''1.500000000'', bc_token_name = ''SOL'',
       bc_token_address = ''So11111111111111111111111111111111111111111''\<rparr>]"

section \<open>Proofs: task execution engine\<close>

lemma wait_execute_Task: "wait_for_completion (execute (Task f) d) = outcome d f"
  by (simp add: wait_for_completion_def execute_def Task_def outcome_def split: sum.splits)

lemma handle_task_driver:
  "ready env m d \<Longrightarrow> heap m r = Some t \<Longrightarrow> driver (handle_task env r m) = Some d"
  by (auto simp: ready_def handle_task_def)

lemma handle_task_heap:
  "ready env m d \<Longrightarrow> heap m r = Some t \<Longrightarrow>
     heap (handle_task env r m) = (heap m)(r \<mapsto> execute t d)"
  by (auto simp: ready_def handle_task_def)

lemma worker_loop_heap:
  "ready env m d \<Longrightarrow> distinct rs \<Longrightarrow> \<forall>r \<in> set rs. heap m r \<noteq> None \<Longrightarrow>
     heap (worker_loop env (map Some rs) m) r =
       (if r \<in> set rs then map_option (\<lambda>t. execute t d) (heap m r) else heap m r)"
proof (induction rs arbitrary: m)
  case Nil
  then show ?case by simp
next
  case (Cons a rs)
  from Cons.prems obtain t where t: "heap m a = Some t" by auto
  let ?m = "handle_task env a m"
  have d: "driver ?m = Some d" using handle_task_driver [OF Cons.prems(1) t] .
  have h: "heap ?m = (heap m)(a \<mapsto> execute t d)" using handle_task_heap [OF Cons.prems(1) t] .
  have rd: "ready env ?m d" using d by (simp add: ready_def)
  have dom: "\<forall>r \<in> set rs. heap ?m r \<noteq> None" using Cons.prems(3) h by simp
  have "heap (worker_loop env (map Some rs) ?m) r =
       (if r \<in> set rs then map_option (\<lambda>t. execute t d) (heap ?m r) else heap ?m r)"
    using Cons.IH [OF rd _ dom] Cons.prems(2) by simp
  then show ?case using Cons.prems(2) t h by auto
qed

lemma submit_all_running:
  "running m \<Longrightarrow> submit_all m fs = (rs, m1) \<Longrightarrow>
     rs = map Inr [next_ref m ..< next_ref m + length fs] \<and>
     running m1 \<and> driver m1 = driver m \<and> setup_calls m1 = setup_calls m \<and>
     task_queue m1 = task_queue m @ map Some [next_ref m ..< next_ref m + length fs] \<and>
     (\<forall>r < next_ref m. heap m1 r = heap m r) \<and>
     (\<forall>i < length fs. heap m1 (next_ref m + i) = Some (Task (fs ! i)))"
proof (induction fs arbitrary: m rs m1)
  case Nil
  then show ?case by simp
next
  case (Cons f fs)
  obtain r m' where a: "add_task m f = (r, m')" by (cases "add_task m f")
  obtain rs' m'' where s: "submit_all m' fs = (rs', m'')" by (cases "submit_all m' fs")
  from a Cons.prems(1) have r: "r = Inr (next_ref m)" and
    m': "m' = m\<lparr>heap := (heap m)(next_ref m \<mapsto> Task f),
           task_queue := task_queue m @ [Some (next_ref m)],
           next_ref := Suc (next_ref m)\<rparr>"
    by (auto simp: add_task_def)
  have run': "running m'" using m' Cons.prems(1) by simp
  note IH = Cons.IH [OF run' s]
  from Cons.prems(2) a s have eq: "rs = r # rs'" "m1 = m''" by auto
  have nr: "next_ref m' = Suc (next_ref m)" using m' by simp
  have u: "[next_ref m ..< next_ref m + length (f # fs)] =
      next_ref m # [Suc (next_ref m) ..< Suc (next_ref m) + length fs]"
    by (simp add: upt_conv_Cons del: upt_Suc)
  have i1: "rs' = map Inr [Suc (next_ref m) ..< Suc (next_ref m) + length fs]"
    using IH unfolding nr by blast
  have i2: "running m'' \<and> driver m'' = driver m' \<and> setup_calls m'' = setup_calls m'"
    using IH by blast
  have i3: "task_queue m'' =
      task_queue m' @ map Some [Suc (next_ref m) ..< Suc (next_ref m) + length fs]"
    using IH unfolding nr by blast
  have old: "\<forall>r < Suc (next_ref m). heap m'' r = heap m' r"
    using IH unfolding nr by blast
  have new: "\<forall>i < length fs. heap m'' (Suc (next_ref m) + i) = Some (Task (fs ! i))"
    using IH unfolding nr by blast
  have c1: "rs = map Inr [next_ref m ..< next_ref m + length (f # fs)]"
    unfolding u using i1 eq r by simp
  have c2: "running m1 \<and> driver m1 = driver m \<and> setup_calls m1 = setup_calls m"
    using i2 eq m' by simp
  have c3: "task_queue m1 =
      task_queue m @ map Some [next_ref m ..< next_ref m + length (f # fs)]"
    unfolding u using i3 eq m' by simp
  have c4: "\<forall>r < next_ref m. heap m1 r = heap m r"
    using old m' eq by simp
  have c5: "\<forall>i < length (f # fs). heap m1 (next_ref m + i) = Some (Task ((f # fs) ! i))"
  proof (intro allI impI)
    fix i assume i: "i < length (f # fs)"
    show "heap m1 (next_ref m + i) = Some (Task ((f # fs) ! i))"
    proof (cases i)
      case 0
      then show ?thesis using old m' eq by simp
    next
      case (Suc j)
      then show ?thesis using new i eq by simp
    qed
  qed
  show ?case using c1 c2 c3 c4 c5 by blast
qed

text \<open>
  Claim C8.  Units of work are submitted one after the other to a running engine whose
  queue is empty and whose session is there or can be created.  Once the worker has gone
  through the queue, the submitter of every unit is told that unit's own outcome: the
  value it returned, or the exception it raised.  A unit that raises changes nothing for
  the units submitted after it: they are executed all the same.
\<close>

theorem worker_fault_isolation:
  assumes "running m" and "task_queue m = []" and "ready env m d"
    and "submit_all m fs = (rs, m1)"
  shows "length rs = length fs \<and>
    (\<forall>i < length fs.
       delivered (worker_thread_func env m1) (rs ! i) = outcome d (fs ! i))"
proof -
  let ?n = "next_ref m"
  let ?refs = "[?n ..< ?n + length fs]"
  note S = submit_all_running [OF assms(1) assms(4)]
  have rs: "rs = map Inr ?refs" using S by blast
  have q: "task_queue m1 = map Some ?refs" using S assms(2) by simp
  have run: "running m1" using S by blast
  have rd: "ready env m1 d" using S assms(3) by (simp add: ready_def)
  have dom: "\<forall>r \<in> set ?refs. heap m1 r \<noteq> None"
  proof
    fix r assume "r \<in> set ?refs"
    then have "r - ?n < length fs" "r = ?n + (r - ?n)" by auto
    then show "heap m1 r \<noteq> None" using S by (metis option.distinct(1))
  qed
  have w: "worker_thread_func env m1 = worker_loop env (map Some ?refs) m1"
    using run q by (simp add: worker_thread_func_def)
  have each: "delivered (worker_thread_func env m1) (rs ! i) = outcome d (fs ! i)"
    if i: "i < length fs" for i
  proof -
    have ri: "rs ! i = Inr (?n + i)" using rs i by simp
    have mem: "?n + i \<in> set ?refs" using i by simp
    have hi: "heap m1 (?n + i) = Some (Task (fs ! i))" using S i by blast
    have "heap (worker_thread_func env m1) (?n + i) = Some (execute (Task (fs ! i)) d)"
      using worker_loop_heap [OF rd _ dom, of "?n + i"] mem hi w by simp
    then show ?thesis using ri by (simp add: delivered_def wait_execute_Task)
  qed
  show ?thesis using rs each by simp
qed

theorem worker_fault_isolation_witness:
  "running (start init_manager :: nat manager) \<and>
   task_queue (start init_manager :: nat manager) = [] \<and>
   ready demo_env (start init_manager :: nat manager) 7 \<and>
   map (delivered (worker_thread_func demo_env (snd (submit_all (start init_manager) demo_units))))
       (fst (submit_all (start init_manager) demo_units))
     = [Inr (Some 1), Inl (TaskRaised (Exn ''boom'')), Inr (Some 3)]"
proof -
  let ?m = "start init_manager :: nat manager"
  have a: "running ?m" by (simp add: start_def init_manager_def)
  have b: "task_queue ?m = []" by (simp add: start_def init_manager_def)
  have c: "ready demo_env ?m 7" by (simp add: ready_def start_def init_manager_def demo_env_def)
  obtain rs m1 where s: "submit_all ?m demo_units = (rs, m1)" by (cases "submit_all ?m demo_units")
  note T = worker_fault_isolation [OF a b c s]
  have len: "length rs = 3" using T by (simp add: demo_units_def)
  then obtain r0 r1 r2 where rs: "rs = [r0, r1, r2]"
    by (auto simp: length_Suc_conv numeral_3_eq_3)
  have "\<forall>i<3. delivered (worker_thread_func demo_env m1) (rs ! i) = outcome 7 (demo_units ! i)"
    using T by (simp add: demo_units_def)
  then have "delivered (worker_thread_func demo_env m1) (rs ! 0) = outcome 7 (demo_units ! 0)"
    "delivered (worker_thread_func demo_env m1) (rs ! 1) = outcome 7 (demo_units ! 1)"
    "delivered (worker_thread_func demo_env m1) (rs ! 2) = outcome 7 (demo_units ! 2)"
    by simp_all
  then have "map (delivered (worker_thread_func demo_env m1)) rs =
     [Inr (Some 1), Inl (TaskRaised (Exn ''boom'')), Inr (Some 3)]"
    using rs by (simp add: demo_units_def outcome_def)
  then show ?thesis using a b c s by simp
qed

text \<open>
  Claim C10.  When the engine is not running, \<open>add_task\<close> and \<open>execute_task\<close>
  raise \<open>RuntimeError\<close> and leave the engine as it was: nothing is enqueued and no task
  object is allocated.  The engine is not running before \<open>start\<close> and after \<open>stop\<close>.
\<close>

theorem add_task_not_running:
  "(\<not> running m \<longrightarrow>
      add_task m f = (Inl (RuntimeError ''SeleniumManager is not running. Call start() first.''), m) \<and>
      execute_task env in_time m f =
        (Inl (RuntimeError ''SeleniumManager is not running. Call start() first.''), m)) \<and>
   \<not> running (init_manager :: 'v manager) \<and> \<not> running (stop m')"
  by (simp add: add_task_def execute_task_def init_manager_def stop_def)

theorem add_task_not_running_witness:
  "\<not> running (init_manager :: nat manager) \<and>
   add_task (init_manager :: nat manager) (\<lambda>d. Inr 1) =
     (Inl (RuntimeError ''SeleniumManager is not running. Call start() first.''), init_manager) \<and>
   execute_task (\<lambda>n. [Ready 7]) True (init_manager :: nat manager) (\<lambda>d. Inr 1) =
     (Inl (RuntimeError ''SeleniumManager is not running. Call start() first.''), init_manager)"
proof -
  have n: "\<not> running (init_manager :: nat manager)" by (simp add: init_manager_def)
  show ?thesis
    using n add_task_not_running [of "init_manager :: nat manager" "\<lambda>d. Inr 1"
        "\<lambda>n. [Ready 7]" True "init_manager :: nat manager"]
    by blast
qed

section \<open>Proofs: retry helper\<close>

lemma upto_from_0: "1 \<le> n \<Longrightarrow> [0..n] = 0 # 1 # [2..n]"
  by (simp add: upto_rec1 [of 0 n] upto_rec1 [of 1 n])

text \<open>
  Claim C1, as the code has it.  When the first call fails, a retry is allowed and no
  other endpoint is configured, the helper sleeps two seconds, reports that no
  alternative is left and gives up at once: it returns null after the one request of the
  first attempt, whatever the maximum retry count, and leaves the client untouched.
\<close>

theorem retry_stops_without_alternative:
  assumes "filter (\<lambda>url. url \<noteq> current_rpc_url c) (rpc_urls c) = []"
    and "req 0 = None" and "1 \<le> max_retries"
  shows "retry_request choice req max_retries c = (None, c, [Request 0, Sleep 2, NoAlternative]) \<and>
    requests (snd (snd (retry_request choice req max_retries c))) = [0]"
proof -
  have r: "retry_request choice req max_retries c = (None, c, [Request 0, Sleep 2, NoAlternative])"
    using assms by (simp add: retry_request_def upto_from_0 switch_rpc_url_def)
  have "requests (snd (snd (retry_request choice req max_retries c))) = [0]"
    unfolding r by (simp add: requests_def)
  with r show ?thesis by simp
qed

theorem retry_stops_without_alternative_witness:
  "filter (\<lambda>url. url \<noteq> current_rpc_url (new_client hd)) (rpc_urls (new_client hd)) = [] \<and>
   (\<lambda>a::int. None :: nat option) 0 = None \<and> (1::int) \<le> 3 \<and>
   retry_request hd (\<lambda>a. None :: nat option) 3 (new_client hd) =
     (None, new_client hd, [Request 0, Sleep 2, NoAlternative])"
proof -
  have a: "filter (\<lambda>url. url \<noteq> current_rpc_url (new_client hd)) (rpc_urls (new_client hd)) = []"
    by (simp add: new_client_def SOLANA_RPC_URLS_def)
  have b: "(\<lambda>a::int. None :: nat option) 0 = None" by simp
  have c: "(1::int) \<le> 3" by simp
  show ?thesis using a retry_stops_without_alternative [OF a b c, of hd] by simp
qed

text \<open>
  The claim as the specification words it fails on the default configuration, whose pool
  holds one endpoint: with every call failing and three retries allowed, one request is
  issued, not four.
\<close>

theorem retry_continues_counterexample:
  "requests (snd (snd (retry_request hd (\<lambda>a. None :: nat option) 3 (new_client hd)))) = [0] \<and>
   requests (snd (snd (retry_request hd (\<lambda>a. None :: nat option) 3 (new_client hd)))) \<noteq> [0, 1, 2, 3]"
  by (simp add: retry_request_def upto_from_0 switch_rpc_url_def new_client_def
      SOLANA_RPC_URLS_def requests_def)

section \<open>Proofs: time texts\<close>

lemma parse_relative_2_hours: "parse_relative now ''2 hours ago'' = FallThrough"
  by (simp add: parse_relative_def lower_def lower_char_def startswith_def)

text \<open>
  Claim C2, at its own example.  \<open>2 hours ago\<close> holds neither \<open>hr\<close> nor any other of
  the unit words that the parser looks for, so the relative branch leaves it to the
  absolute formats; none of them matches, and the result is the evaluation instant with
  a warning, not the instant two hours before.  \<open>2 hrs ago\<close> is the text that is
  recognised.
\<close>

theorem parse_time_text_2_hours:
  "parse_time_text strptime now now_err ''2 hours ago'' =
     (case try_formats strptime ''2 hours ago'' date_formats of
        Some t \<Rightarrow> (t, Silent)
      | None \<Rightarrow> (now, Warning)) \<and>
   parse_time_text no_strptime 1700000000000000 1700000000000001 ''2 hours ago'' =
     (1700000000000000, Warning) \<and>
   parse_time_text no_strptime 1700000000000000 1700000000000001 ''2 hrs ago'' =
     (1700000000000000 - 2 * hour_us, Silent)"
proof -
  have s: "strip ''2 hours ago'' = ''2 hours ago''"
    by (simp add: strip_def is_space_def)
  have a: "parse_time_text strptime now now_err ''2 hours ago'' =
     (case try_formats strptime ''2 hours ago'' date_formats of
        Some t \<Rightarrow> (t, Silent)
      | None \<Rightarrow> (now, Warning))" for strptime now now_err
    unfolding parse_time_text_def s Let_def parse_relative_2_hours by simp
  have b: "parse_time_text no_strptime 1700000000000000 1700000000000001 ''2 hours ago'' =
     (1700000000000000, Warning)"
    unfolding a by (simp add: date_formats_def no_strptime_def)
  have s2: "strip ''2 hrs ago'' = ''2 hrs ago''"
    by (simp add: strip_def is_space_def)
  have r2: "parse_relative now ''2 hrs ago'' = ago now ''2 hrs ago'' hour_us" for now
    by (simp add: parse_relative_def lower_def lower_char_def startswith_def)
  have n2: "first_number ''2 hrs ago'' = Some 2"
    by (simp add: first_number_def is_digit_def int_of_digits_def digit_val_def)
  have c: "parse_time_text no_strptime 1700000000000000 1700000000000001 ''2 hrs ago'' =
     (1700000000000000 - 2 * hour_us, Silent)"
    unfolding parse_time_text_def s2 Let_def r2 ago_def n2
    by (simp add: minus_timedelta_def hour_us_def day_us_def second_us_def datetime_min_def
        datetime_max_def)
  show ?thesis using a b c by blast
qed

section \<open>Proofs: scraped tables\<close>

text \<open>
  Claim C9, at a row that the claim accepts and the code does not.  The row is within the
  time range, is not flagged as failed, and its programs cell links to the second of the
  two configured program IDs.  The task compares the link with the first ID only, so the
  row is read and dropped, and the task returns no transaction.  The same row with a link
  to the first ID is accepted.
\<close>

theorem second_program_id_row_rejected:
  "axiom_link AXIOM_PROGRAM_ID
     (programs_cell (row_for_program ''AxiomxSitiyXyPjKgJ9XSrdhsydtZsskZTEDam3PxKcC'')) = Some True \<and>
   \<not> check_transaction_failed
     (outer_html (row_for_program ''AxiomxSitiyXyPjKgJ9XSrdhsydtZsskZTEDam3PxKcC'')) \<and>
   process_row no_strptime (1700000000000000, 1700000000000000) (1700000000000000 - day_us) 1
     (row_for_program ''AxiomxSitiyXyPjKgJ9XSrdhsydtZsskZTEDam3PxKcC'') = RowRejected \<and>
   map_sum id transactions
     (extract_address_transactions_task no_strptime 1700000000000000
        (\<lambda>i. (1700000000000000, 1700000000000000))
        (Pages (\<lambda>k. Table [row_for_program ''AxiomxSitiyXyPjKgJ9XSrdhsydtZsskZTEDam3PxKcC'']
                       NextMissing))
        ''6xspgTx3zS1iYvFy73fWhbRTVtLfCqbAVJHxUxhurHvC'' 1 0) = Inr [] \<and>
   map_sum id (map tx_signature \<circ> transactions)
     (extract_address_transactions_task no_strptime 1700000000000000
        (\<lambda>i. (1700000000000000, 1700000000000000))
        (Pages (\<lambda>k. Table [row_for_program ''AxiomfHaWDemCFBLBayqnEnNwE6b7B2Qz3UmzMpgbMG6'']
                       NextMissing))
        ''6xspgTx3zS1iYvFy73fWhbRTVtLfCqbAVJHxUxhurHvC'' 1 0) = Inr [''5sig'']"
  by code_simp

text \<open>
  Claim C4, at a page that makes the scrape source return a program ID.  The row's
  signer link leads to the first Axiom program ID and its programs cell links to Axiom.
  \<open>extract_table_data_task\<close> has no test against the program IDs, unlike
  \<open>_extract_addresses_from_transaction\<close> of the RPC source, so the ID is returned as a
  trader address.
\<close>

theorem scrape_returns_program_id:
  "extract_table_data_task
     (Pages (\<lambda>k. Table [row_signed_by ''AxiomfHaWDemCFBLBayqnEnNwE6b7B2Qz3UmzMpgbMG6'']
                    NextMissing))
     ''AxiomfHaWDemCFBLBayqnEnNwE6b7B2Qz3UmzMpgbMG6'' 10 0 =
   Inr \<lparr>program_id = ''AxiomfHaWDemCFBLBayqnEnNwE6b7B2Qz3UmzMpgbMG6'',
        unique_addresses = [''AxiomfHaWDemCFBLBayqnEnNwE6b7B2Qz3UmzMpgbMG6''], total_found = 1,
        pages_processed = 1, target_count = 10\<rparr> \<and>
   ''AxiomfHaWDemCFBLBayqnEnNwE6b7B2Qz3UmzMpgbMG6'' \<in> set AXIOM_PROGRAM_ID"
  by code_simp

section \<open>Proofs: value and fee texts\<close>

lemma is_digit_digit_char: "is_digit (digit_char d)"
proof -
  have "nat (d mod 10) < length ''0123456789''" by simp
  then have "''0123456789'' ! nat (d mod 10) \<in> set ''0123456789''" by (rule nth_mem)
  then show ?thesis by (simp only: is_digit_def digit_char_def)
qed

lemma digits_of_all_digits: "list_all is_digit (digits_of n)"
proof (induction n rule: digits_of.induct)
  case (1 n)
  show ?case
  proof (cases "n < 10")
    case True
    then show ?thesis by (subst digits_of.simps) (simp add: is_digit_digit_char)
  next
    case False
    then show ?thesis using "1.IH" by (subst digits_of.simps) (simp add: is_digit_digit_char)
  qed
qed

lemma digits_of_nonempty: "digits_of n \<noteq> []"
  by (subst digits_of.simps) simp

lemma length_digits_of: "n < 10 ^ Suc k \<Longrightarrow> length (digits_of n) \<le> Suc k"
proof (induction k arbitrary: n)
  case 0
  then show ?case by (subst digits_of.simps) simp
next
  case (Suc k)
  show ?case
  proof (cases "n < 10")
    case True
    then show ?thesis by (subst digits_of.simps) simp
  next
    case False
    have "n div 10 < 10 ^ Suc k" using Suc.prems by simp
    then have "length (digits_of (n div 10)) \<le> Suc k" by (rule Suc.IH)
    then show ?thesis using False by (subst digits_of.simps) simp
  qed
qed

lemma length_zero_pad: "length s \<le> k \<Longrightarrow> length (zero_pad k s) = k"
  by (simp add: zero_pad_def)

lemma is_digit_zero: "is_digit (CHR ''0'')"
  by (simp add: is_digit_def)

lemma zero_pad_all_digits: "list_all is_digit s \<Longrightarrow> list_all is_digit (zero_pad k s)"
  by (simp add: zero_pad_def list_all_iff ball_Un is_digit_zero)

lemma unsigned_six_decimals_parts:
  assumes "ip \<noteq> []" and "list_all is_digit ip" and "length fp = 6" and "list_all is_digit fp"
  shows "unsigned_six_decimals (ip @ ''.'' @ fp)"
proof -
  have l: "length (ip @ ''.'' @ fp) - 7 = length ip" using assms(3) by simp
  have l6: "length (ip @ ''.'' @ fp) - 6 = Suc (length ip)" using assms(3) by simp
  have "length (ip @ ''.'' @ fp) \<ge> 8" using assms(1,3) by (cases ip) simp_all
  moreover have "(ip @ ''.'' @ fp) ! (length (ip @ ''.'' @ fp) - 7) = CHR ''.''"
    unfolding l by (simp add: nth_append)
  moreover have "take (length (ip @ ''.'' @ fp) - 7) (ip @ ''.'' @ fp) = ip"
    unfolding l by simp
  moreover have "drop (length (ip @ ''.'' @ fp) - 6) (ip @ ''.'' @ fp) = fp"
    unfolding l6 by simp
  ultimately show ?thesis using assms(2,4) by (simp only: unsigned_six_decimals_def simp_thms)
qed

lemma round_half_even_nonneg: "0 \<le> x \<Longrightarrow> 0 \<le> round_half_even x"
  by (simp add: round_half_even_def Let_def)

lemma is_digit_not_minus: "is_digit c \<Longrightarrow> c \<noteq> CHR ''-''"
  by (auto simp: is_digit_def)

text \<open>The \<open>.6f\<close> format always ends in a point and six digits.\<close>

lemma six_decimals_format_f: "six_decimals (format_f False False 6 x)"
proof -
  define n where "n = round_half_even (\<bar>x\<bar> * 10 ^ 6)"
  define ip where "ip = digits_of (n div 10 ^ 6)"
  define fp where "fp = zero_pad 6 (digits_of (n mod 10 ^ 6))"
  have n0: "0 \<le> n" unfolding n_def by (rule round_half_even_nonneg) simp
  have "n mod 10 ^ 6 < 10 ^ Suc 5" by simp
  then have "length (digits_of (n mod 10 ^ 6)) \<le> Suc 5" by (rule length_digits_of)
  then have lf: "length fp = 6" unfolding fp_def by (simp add: length_zero_pad)
  have df: "list_all is_digit fp"
    unfolding fp_def by (rule zero_pad_all_digits) (rule digits_of_all_digits)
  have di: "list_all is_digit ip" unfolding ip_def by (rule digits_of_all_digits)
  have ne: "ip \<noteq> []" unfolding ip_def by (rule digits_of_nonempty)
  have u: "unsigned_six_decimals (ip @ ''.'' @ fp)"
    using ne di lf df by (rule unsigned_six_decimals_parts)
  obtain c cs where ip: "ip = c # cs" using ne by (cases ip) auto
  have c: "c \<noteq> CHR ''-''" using di ip by (simp add: is_digit_not_minus)
  have f: "format_f False False 6 x = (if x < 0 then ''-'' else '''') @ ip @ ''.'' @ fp"
    by (simp add: format_f_def Let_def n_def ip_def fp_def)
  show ?thesis
  proof (cases "x < 0")
    case True
    then show ?thesis using u f by (simp add: six_decimals_def)
  next
    case False
    then have "format_f False False 6 x = c # (cs @ ''.'' @ fp)" using f ip by simp
    then show ?thesis using u c ip by (simp add: six_decimals_def)
  qed
qed

text \<open>The loop of \<open>_extract_transaction_value\<close> computes a maximum.\<close>

lemma Max_insert_max:
  fixes a c :: rat
  assumes "finite S"
  shows "Max (insert (max a c) S) = Max (insert a (insert c S))"
proof (cases "S = {}")
  case True
  then show ?thesis by simp
next
  case False
  have "Max (insert (max a c) S) = max (max a c) (Max S)"
    using assms False by (rule Max_insert)
  moreover have "Max (insert c S) = max c (Max S)"
    using assms False by (rule Max_insert)
  moreover have "Max (insert a (insert c S)) = max a (Max (insert c S))"
    by (rule Max_insert) (use assms in simp_all)
  ultimately show ?thesis by (simp only: max.assoc)
qed

lemma max_change_step_max:
  "max_change_step a pp = max a (lamports_to_sol \<bar>snd pp - fst pp\<bar>)"
  by (simp add: max_change_step_def Let_def max_def)

lemma foldl_max_change_step:
  "foldl max_change_step a pps =
     Max (insert a (set (map (\<lambda>pp. lamports_to_sol \<bar>snd pp - fst pp\<bar>) pps)))"
proof (induction pps arbitrary: a)
  case Nil
  then show ?case by simp
next
  case (Cons pp pps)
  let ?c = "lamports_to_sol \<bar>snd pp - fst pp\<bar>"
  let ?S = "set (map (\<lambda>pp. lamports_to_sol \<bar>snd pp - fst pp\<bar>) pps)"
  have "foldl max_change_step a (pp # pps) = foldl max_change_step (max a ?c) pps"
    by (simp only: foldl_Cons max_change_step_max)
  also have "\<dots> = Max (insert (max a ?c) ?S)" by (rule Cons.IH)
  also have "\<dots> = Max (insert a (insert ?c ?S))" by (rule Max_insert_max) simp
  also have "insert a (insert ?c ?S) =
      insert a (set (map (\<lambda>pp. lamports_to_sol \<bar>snd pp - fst pp\<bar>) (pp # pps)))"
    by simp
  finally show ?case .
qed

lemma parse_transaction_fields:
  assumes "parse_transaction now tx info = Inr t"
  shows "tx_fee t = fee_text tx \<and> tx_value t = value_text (extract_transaction_value tx)"
proof -
  define stamped where "stamped =
     (case block_time tx of
        None \<Rightarrow> Some (''Unknown'', None)
      | Some t \<Rightarrow>
          if t = 0 then Some (''Unknown'', None)
          else (case fromtimestamp t of
                  None \<Rightarrow> None
                | Some instant \<Rightarrow> Some (format_time_ago now instant, Some instant)))"
  have p: "parse_transaction now tx info =
     (case stamped of
        None \<Rightarrow> Inl (Exn ''year out of range'')
      | Some (time_text, timestamp) \<Rightarrow>
          Inr \<lparr>tx_signature = sig_signature info,
               tx_block = str_int (if sig_slot info \<noteq> 0 then sig_slot info else slot tx),
               tx_time = time_text, tx_timestamp = timestamp,
               tx_instructions = extract_instructions tx, tx_by = extract_signer tx,
               tx_value = value_text (extract_transaction_value tx),
               tx_fee = fee_text tx, tx_page = 1\<rparr>)"
    unfolding parse_transaction_def Let_def stamped_def by (rule refl)
  show ?thesis
  proof (cases stamped)
    case None
    then show ?thesis using assms p by simp
  next
    case (Some st)
    obtain a b where "st = (a, b)" by (cases st)
    then show ?thesis using assms p Some by auto
  qed
qed

lemma not_six_decimals_0: "\<not> six_decimals ''0''"
  by (simp add: six_decimals_def unsigned_six_decimals_def)

lemma extract_transaction_value_Max:
  assumes m: "meta tx = Some m"
  shows "extract_transaction_value tx =
      Max (insert 0 (set (map (\<lambda>pp. lamports_to_sol \<bar>snd pp - fst pp\<bar>)
                              (zip (pre_balances m) (post_balances m)))))"
proof (cases "pre_balances m \<noteq> [] \<and> post_balances m \<noteq> []")
  case True
  then have "extract_transaction_value tx =
      foldl max_change_step 0 (zip (pre_balances m) (post_balances m))"
    using m by (simp add: extract_transaction_value_def)
  then show ?thesis by (simp only: foldl_max_change_step)
next
  case False
  then have z: "zip (pre_balances m) (post_balances m) = []" by auto
  have "extract_transaction_value tx = 0"
    using m False by (auto simp: extract_transaction_value_def)
  then show ?thesis unfolding z by simp
qed

text \<open>
  Claim C7, as the code has it.  For every transaction record of the RPC source, the fee
  is \<open>fee / 10^9\<close> in the \<open>.6f\<close> format and has exactly six decimal places.  The value
  is the largest absolute change of a SOL balance over the accounts, each change divided
  by \<open>10^9\<close>; it has exactly six decimal places when it is not zero, and it is the text
  \<open>0\<close>, without decimal places, when it is zero.
\<close>

theorem parse_transaction_value_fee:
  assumes "parse_transaction now tx info = Inr t"
  shows "tx_fee t =
      format_f False False 6 (lamports_to_sol (case meta tx of Some m \<Rightarrow> fee m | None \<Rightarrow> 0)) \<and>
    six_decimals (tx_fee t) \<and>
    tx_value t =
      (if extract_transaction_value tx \<noteq> 0
       then format_f False False 6 (extract_transaction_value tx) else ''0'') \<and>
    (extract_transaction_value tx \<noteq> 0 \<longrightarrow> six_decimals (tx_value t)) \<and>
    (extract_transaction_value tx = 0 \<longrightarrow> tx_value t = ''0'' \<and> \<not> six_decimals (tx_value t)) \<and>
    (\<forall>m. meta tx = Some m \<longrightarrow>
       extract_transaction_value tx =
         Max (insert 0 (set (map (\<lambda>pp. lamports_to_sol \<bar>snd pp - fst pp\<bar>)
                                 (zip (pre_balances m) (post_balances m))))))"
proof -
  note F = parse_transaction_fields [OF assms]
  have c1: "tx_fee t =
      format_f False False 6 (lamports_to_sol (case meta tx of Some m \<Rightarrow> fee m | None \<Rightarrow> 0))"
    using F by (simp only: fee_text_def)
  have c2: "six_decimals (tx_fee t)"
    unfolding c1 by (rule six_decimals_format_f)
  have c3: "tx_value t =
      (if extract_transaction_value tx \<noteq> 0
       then format_f False False 6 (extract_transaction_value tx) else ''0'')"
    using F by (simp only: value_text_def)
  have c4: "six_decimals (tx_value t)" if "extract_transaction_value tx \<noteq> 0"
    using that c3 six_decimals_format_f [of "extract_transaction_value tx"] by simp
  have c5: "tx_value t = ''0'' \<and> \<not> six_decimals (tx_value t)"
    if "extract_transaction_value tx = 0"
    using that c3 not_six_decimals_0 by simp
  show ?thesis
    using c1 c2 c3 c4 c5 extract_transaction_value_Max by blast
qed

theorem parse_transaction_value_fee_witness:
  "parse_transaction (1700000000 * second_us)
     (demo_tx (demo_meta 5000 [2000000000, 5] [1500000000, 6] [] [])) demo_info =
   Inr \<lparr>tx_signature = ''5sig'', tx_block = ''250000000'', tx_time = ''2 hrs ago'',
        tx_timestamp = Some 1699990000000000, tx_instructions = [''buy''],
        tx_by = ''6xspgTx3zS1iYvFy73fWhbRTVtLfCqbAVJHxUxhurHvC'',
        tx_value = ''0.500000'', tx_fee = ''0.000005'', tx_page = 1\<rparr> \<and>
   six_decimals ''0.000005'' \<and> six_decimals ''0.500000'' \<and>
   extract_transaction_value (demo_tx (demo_meta 5000 [2000000000, 5] [1500000000, 6] [] [])) \<noteq> 0"
proof -
  let ?tx = "demo_tx (demo_meta 5000 [2000000000, 5] [1500000000, 6] [] [])"
  let ?t = "\<lparr>tx_signature = ''5sig'', tx_block = ''250000000'', tx_time = ''2 hrs ago'',
        tx_timestamp = Some 1699990000000000, tx_instructions = [''buy''],
        tx_by = ''6xspgTx3zS1iYvFy73fWhbRTVtLfCqbAVJHxUxhurHvC'',
        tx_value = ''0.500000'', tx_fee = ''0.000005'', tx_page = 1\<rparr>"
  have p: "parse_transaction (1700000000 * second_us) ?tx demo_info = Inr ?t"
    by code_simp
  have v: "extract_transaction_value ?tx \<noteq> 0"
    by code_simp
  note T = parse_transaction_value_fee [OF p]
  from T have "six_decimals (tx_fee ?t)" by blast
  then have f: "six_decimals ''0.000005''" by simp
  from T v have "six_decimals (tx_value ?t)" by blast
  then have w: "six_decimals ''0.500000''" by simp
  from p f w v show ?thesis by blast
qed

text \<open>
  The claim as the specification words it fails where no SOL balance changes: the value
  is then rendered as \<open>0\<close>, which has no decimal places.
\<close>

theorem value_zero_counterexample:
  "map_sum id tx_value
     (parse_transaction (1700000000 * second_us) (demo_tx (demo_meta 5000 [100] [100] [] []))
        demo_info) = Inr ''0'' \<and>
   \<not> six_decimals ''0''"
  by code_simp

section \<open>Proofs: balance changes\<close>

lemma py_float_0: "py_float 0 = 0"
  by (simp add: py_float_def)

lemma py_float_nonzero: "py_float (q - p) \<noteq> 0 \<Longrightarrow> q \<noteq> p"
  using py_float_0 by auto

lemma distinct_merge_pre:
  "distinct (map fst changes) \<Longrightarrow> distinct (map fst (merge_pre a i changes item))"
  by (simp add: merge_pre_def AList.distinct_update)

lemma distinct_merge_post:
  "distinct (map fst changes) \<Longrightarrow> distinct (map fst (merge_post a i changes item))"
  by (simp add: merge_post_def AList.distinct_update split: option.splits prod.splits)

lemma distinct_foldl:
  assumes "\<And>acc x. distinct (map fst acc) \<Longrightarrow> distinct (map fst (f acc x))"
    and "distinct (map fst a)"
  shows "distinct (map fst (foldl f a xs))"
  using assms(2) by (induction xs arbitrary: a) (simp_all add: assms(1))

lemma distinct_token_bal_changes: "distinct (map fst (token_bal_changes a i pre post))"
  unfolding token_bal_changes_def
  by (intro distinct_foldl distinct_merge_post distinct_merge_pre) simp_all

lemma last_amount_Nil: "last_amount a i m [] = None"
  by (simp add: last_amount_def)

lemma last_amount_snoc:
  "last_amount a i m (items @ [x]) =
     (if concerns a i x \<and> mint x = m then Some (amount_val x) else last_amount a i m items)"
  by (simp add: last_amount_def)

lemma map_of_foldl_merge_pre:
  "map_of (foldl (merge_pre a i) acc items) m =
     (case last_amount a i m items of Some p \<Rightarrow> Some (p, 0) | None \<Rightarrow> map_of acc m)"
proof (induction items rule: rev_induct)
  case Nil
  then show ?case by (simp add: last_amount_Nil)
next
  case (snoc x xs)
  show ?case
    using snoc.IH
    by (simp add: last_amount_snoc merge_pre_def AList.update_conv')
qed

lemma map_of_foldl_merge_post:
  "map_of (foldl (merge_post a i) acc items) m =
     (case last_amount a i m items of
        Some q \<Rightarrow> Some (case map_of acc m of Some pq \<Rightarrow> fst pq | None \<Rightarrow> 0, q)
      | None \<Rightarrow> map_of acc m)"
proof (induction items rule: rev_induct)
  case Nil
  then show ?case by (simp add: last_amount_Nil)
next
  case (snoc x xs)
  show ?case
  proof (cases "concerns a i x")
    case False
    then show ?thesis using snoc.IH by (simp add: last_amount_snoc merge_post_def)
  next
    case True
    show ?thesis
    proof (cases "mint x = m")
      case False
      then show ?thesis
        using snoc.IH True
        by (simp add: last_amount_snoc merge_post_def AList.update_conv'
            split: option.splits prod.splits)
    next
      case m: True
      show ?thesis
        using snoc.IH True m
        by (auto simp: last_amount_snoc merge_post_def AList.update_conv'
            split: option.splits prod.splits)
    qed
  qed
qed

lemma map_of_token_bal_changes:
  "map_of (token_bal_changes a i pre post) m =
     (case last_amount a i m post of
        Some q \<Rightarrow> Some (case last_amount a i m pre of Some p \<Rightarrow> p | None \<Rightarrow> 0, q)
      | None \<Rightarrow> (case last_amount a i m pre of Some p \<Rightarrow> Some (p, 0) | None \<Rightarrow> None))"
  unfolding token_bal_changes_def
  by (simp add: map_of_foldl_merge_post map_of_foldl_merge_pre split: option.splits)

lemma last_amount_None_iff: "last_amount a i m items = None \<longleftrightarrow> \<not> appears a i m items"
  by (auto simp: last_amount_def appears_def find_None_iff)

text \<open>The float nearest to a rational is zero only for zero.\<close>

lemma bitlength_nonneg: "0 \<le> bitlength n"
  by (induction n rule: bitlength.induct) (subst bitlength.simps, simp)

lemma bitlength_upper: "n < 2 ^ nat (bitlength n)"
proof (induction n rule: bitlength.induct)
  case (1 n)
  show ?case
  proof (cases "n \<le> 0")
    case True
    then show ?thesis by (subst bitlength.simps) simp
  next
    case False
    then have IH: "n div 2 < 2 ^ nat (bitlength (n div 2))" using "1.IH" by simp
    have b: "bitlength n = 1 + bitlength (n div 2)" using False by (subst bitlength.simps) simp
    have "nat (1 + bitlength (n div 2)) = Suc (nat (bitlength (n div 2)))"
      using bitlength_nonneg [of "n div 2"] by simp
    then have "(2::int) ^ nat (bitlength n) = 2 * 2 ^ nat (bitlength (n div 2))"
      using b by simp
    moreover have "n < 2 * (n div 2 + 1)" by simp
    ultimately show ?thesis using IH by linarith
  qed
qed

lemma bitlength_lower: "0 < n \<Longrightarrow> 2 ^ nat (bitlength n - 1) \<le> n"
proof (induction n rule: bitlength.induct)
  case (1 n)
  have b: "bitlength n = 1 + bitlength (n div 2)" using "1.prems" by (subst bitlength.simps) simp
  show ?case
  proof (cases "n div 2 = 0")
    case True
    then have "bitlength (n div 2) = 0" by (subst bitlength.simps) simp
    then show ?thesis using b "1.prems" by simp
  next
    case False
    then have pos: "0 < n div 2" using "1.prems" by simp
    then have IH: "2 ^ nat (bitlength (n div 2) - 1) \<le> n div 2" using "1.IH" "1.prems" by simp
    have "1 \<le> bitlength (n div 2)"
      using pos bitlength_nonneg [of "n div 2 div 2"] by (subst bitlength.simps) simp
    then have "nat (bitlength n - 1) = Suc (nat (bitlength (n div 2) - 1))" using b by simp
    then have "(2::int) ^ nat (bitlength n - 1) = 2 * 2 ^ nat (bitlength (n div 2) - 1)" by simp
    moreover have "2 * (n div 2) \<le> n" by simp
    ultimately show ?thesis using IH by linarith
  qed
qed

lemma pow2_powi: "pow2 k = 2 powi k"
  by (simp add: pow2_def power_int_def field_simps)

lemma pow2_pos: "0 < pow2 k"
  by (simp add: pow2_powi)

lemma float_exponent_lower:
  assumes "0 < a"
  shows "pow2 (float_exponent a) \<le> a"
proof -
  obtain p d where q: "quotient_of a = (p, d)" by (cases "quotient_of a")
  have d: "0 < d" using q by (rule quotient_of_denom_pos)
  have a: "a = of_int p / of_int d" using q by (rule quotient_of_div)
  have p: "0 < p" using assms a d by (simp add: zero_less_divide_iff)
  define k where "k = bitlength p - bitlength d"
  have fe: "float_exponent a = (if pow2 k \<le> a then k else k - 1)"
    by (simp add: float_exponent_def q Let_def k_def)
  show ?thesis
  proof (cases "pow2 k \<le> a")
    case True
    then show ?thesis using fe by simp
  next
    case False
    have bp: "1 \<le> bitlength p"
      using p bitlength_nonneg [of "p div 2"] by (subst bitlength.simps) simp
    have lo: "(2::rat) ^ nat (bitlength p - 1) \<le> of_int p"
    proof -
      have "of_int ((2::int) ^ nat (bitlength p - 1)) \<le> (of_int p :: rat)"
        using bitlength_lower [OF p] by (simp only: of_int_le_iff)
      then show ?thesis by simp
    qed
    have hi: "of_int d \<le> (2::rat) ^ nat (bitlength d)"
    proof -
      have "(of_int d :: rat) \<le> of_int ((2::int) ^ nat (bitlength d))"
        using less_imp_le [OF bitlength_upper [of d]] by (simp only: of_int_le_iff)
      then show ?thesis by simp
    qed
    have "pow2 (k - 1) = 2 powi (bitlength p - 1) / 2 powi (bitlength d)"
      unfolding pow2_powi k_def
      by (metis (no_types) diff_diff_eq2 diff_add_eq_diff_diff_swap power_int_diff
          zero_neq_numeral add.commute diff_diff_eq)
    also have "\<dots> = 2 ^ nat (bitlength p - 1) / 2 ^ nat (bitlength d)"
      using bp bitlength_nonneg [of d] by (simp add: power_int_def)
    also have "\<dots> \<le> of_int p / of_int d"
      using lo hi d p by (intro frac_le) simp_all
    finally show ?thesis using fe False a by simp
  qed
qed

lemma round_half_even_ge_floor: "\<lfloor>x\<rfloor> \<le> round_half_even x"
  by (simp add: round_half_even_def Let_def)

lemma py_float_eq_0_iff: "py_float q = 0 \<longleftrightarrow> q = 0"
proof
  assume "q = 0"
  then show "py_float q = 0" by (simp add: py_float_def)
next
  assume z: "py_float q = 0"
  show "q = 0"
  proof (rule ccontr)
    assume nz: "q \<noteq> 0"
    define a where "a = \<bar>q\<bar>"
    define s where "s = pow2 (float_exponent a - 52)"
    have a: "0 < a" using nz by (simp add: a_def)
    have s: "0 < s" unfolding s_def by (rule pow2_pos)
    define E where "E = pow2 (float_exponent a)"
    define c :: rat where "c = 2 ^ 52"
    have E: "0 < E" unfolding E_def by (rule pow2_pos)
    have c: "1 \<le> c" unfolding c_def by simp
    have se: "s = E / c"
      unfolding s_def E_def c_def pow2_powi by (simp add: power_int_diff)
    have aE: "1 \<le> a / E"
      using float_exponent_lower [OF a] E by (simp add: E_def)
    have "a / s = a / E * c" unfolding se using E c by (simp add: field_simps)
    moreover have "1 * 1 \<le> a / E * c"
      using aE c by (intro mult_mono) simp_all
    ultimately have "1 \<le> a / s" by simp
    then have "1 \<le> \<lfloor>a / s\<rfloor>" by (simp add: le_floor_iff)
    then have m: "0 < round_half_even (a / s)"
      using round_half_even_ge_floor [of "a / s"] by linarith
    have "py_float q = sgn q * of_int (round_half_even (a / s)) * s"
      using nz by (simp add: py_float_def Let_def a_def s_def)
    then have "py_float q \<noteq> 0" using nz m s by (simp add: sgn_if)
    then show False using z by simp
  qed
qed

lemma filter_key_distinct:
  "distinct (map fst al) \<Longrightarrow> map_of al k = Some v \<Longrightarrow> filter (\<lambda>e. fst e = k) al = [(k, v)]"
proof (induction al)
  case Nil
  then show ?case by simp
next
  case (Cons e al)
  show ?case
  proof (cases "fst e = k")
    case True
    have "fst e \<notin> fst ` set al" using Cons.prems(1) by simp
    then have "\<forall>x \<in> set al. fst x \<noteq> k" using True by (metis imageI)
    then have "filter (\<lambda>e. fst e = k) al = []"
      by (simp add: filter_empty_conv)
    moreover have "e = (k, v)" using True Cons.prems(2) by (cases e) simp
    ultimately show ?thesis by simp
  next
    case False
    then show ?thesis using Cons by (cases e) auto
  qed
qed

lemma token_change_eq:
  "token_change g sig block time_text (m, p, q) =
     (if py_float (q - p) \<noteq> 0 then
        [\<lparr>bc_signature = sig, bc_block = block, bc_time = time_text,
          bc_amount = replace_plus (py_float (q - p) > 0) (format_f True True 6 (py_float (q - p))),
          bc_post_balance = format_f False True 6 q,
          bc_token_name = g m, bc_token_address = m\<rparr>]
      else [])"
  by (simp add: token_change_def Let_def)

lemma token_change_address:
  "r \<in> set (token_change g sig block time_text e) \<Longrightarrow> bc_token_address r = fst e"
  by (cases e) (auto simp: token_change_eq split: if_splits)

lemma filter_token_change:
  "filter (\<lambda>r. bc_token_address r = m) (token_change g sig block time_text e) =
     (if fst e = m then token_change g sig block time_text e else [])"
proof (cases "fst e = m")
  case True
  then have "\<forall>r \<in> set (token_change g sig block time_text e). bc_token_address r = m"
    by (auto dest: token_change_address)
  then show ?thesis using True by simp
next
  case False
  then have "\<forall>r \<in> set (token_change g sig block time_text e). bc_token_address r \<noteq> m"
    by (auto dest: token_change_address)
  then show ?thesis using False by (simp add: filter_empty_conv)
qed

lemma token_changes_Cons:
  "token_changes g sig block time_text (e # al) =
     token_change g sig block time_text e @ token_changes g sig block time_text al"
  by (simp add: token_changes_def)

text \<open>The records of one mint: those of the mint's entry in the table.\<close>

lemma filter_token_changes:
  "distinct (map fst al) \<Longrightarrow>
     filter (\<lambda>r. bc_token_address r = m) (token_changes g sig block time_text al) =
       (case map_of al m of None \<Rightarrow> [] | Some pq \<Rightarrow> token_change g sig block time_text (m, pq))"
proof (induction al)
  case Nil
  then show ?case by (simp add: token_changes_def)
next
  case (Cons e al)
  obtain k pq where e: "e = (k, pq)" by (cases e)
  have d: "distinct (map fst al)" and fresh: "k \<notin> fst ` set al" using Cons.prems e by auto
  note IH = Cons.IH [OF d]
  show ?case
  proof (cases "k = m")
    case True
    have "map_of al m = None" using fresh True by (simp add: map_of_eq_None_iff)
    then have "filter (\<lambda>r. bc_token_address r = m) (token_changes g sig block time_text al) = []"
      using IH by simp
    then show ?thesis using True e by (simp add: token_changes_Cons filter_token_change)
  next
    case False
    then show ?thesis using IH e by (simp add: token_changes_Cons filter_token_change)
  qed
qed

text \<open>
  Claim C6.  \<open>_extract_balance_changes\<close> merges the pre- and the post-token-balance
  entries that concern the inspected address in a table keyed by mint, so every mint has at
  most one entry.  For a mint that appears only in the post-balance list the entry has pre
  \<open>0\<close> and the mint's last post amount; for a mint that appears only in the
  pre-balance list it has the mint's last pre amount and post \<open>0\<close>; for a mint
  that appears in both lists the table holds exactly one entry, which combines the pre and
  the post amount; a mint that appears in neither list has no entry.  The change records of
  a mint are read off its entry: exactly one record, with the signed difference and the post
  amount of the entry, when the post amount differs from the pre amount, and no record when
  the two are equal or the mint has no entry.
\<close>

theorem token_balances_merged_per_mint:
  "distinct (map fst (token_bal_changes a i pre post)) \<and>
   (\<not> appears a i m pre \<and> appears a i m post \<longrightarrow>
      (\<exists>q. last_amount a i m post = Some q \<and>
           map_of (token_bal_changes a i pre post) m = Some (0, q))) \<and>
   (appears a i m pre \<and> \<not> appears a i m post \<longrightarrow>
      (\<exists>p. last_amount a i m pre = Some p \<and>
           map_of (token_bal_changes a i pre post) m = Some (p, 0))) \<and>
   (appears a i m pre \<and> appears a i m post \<longrightarrow>
      (\<exists>p q. last_amount a i m pre = Some p \<and> last_amount a i m post = Some q \<and>
           map_of (token_bal_changes a i pre post) m = Some (p, q) \<and>
           filter (\<lambda>e. fst e = m) (token_bal_changes a i pre post) = [(m, p, q)])) \<and>
   (\<not> appears a i m pre \<and> \<not> appears a i m post \<longrightarrow>
      map_of (token_bal_changes a i pre post) m = None) \<and>
   filter (\<lambda>r. bc_token_address r = m)
     (token_changes g sig block time_text (token_bal_changes a i pre post)) =
     (case map_of (token_bal_changes a i pre post) m of
        None \<Rightarrow> []
      | Some (p, q) \<Rightarrow>
          if q \<noteq> p then
            [\<lparr>bc_signature = sig, bc_block = block, bc_time = time_text,
              bc_amount = replace_plus (py_float (q - p) > 0)
                            (format_f True True 6 (py_float (q - p))),
              bc_post_balance = format_f False True 6 q,
              bc_token_name = g m, bc_token_address = m\<rparr>]
          else [])"
proof -
  let ?T = "token_bal_changes a i pre post"
  have d: "distinct (map fst ?T)" by (rule distinct_token_bal_changes)
  have M: "map_of ?T m =
     (case last_amount a i m post of
        Some q \<Rightarrow> Some (case last_amount a i m pre of Some p \<Rightarrow> p | None \<Rightarrow> 0, q)
      | None \<Rightarrow> (case last_amount a i m pre of Some p \<Rightarrow> Some (p, 0) | None \<Rightarrow> None))"
    by (rule map_of_token_bal_changes)
  have c1: "\<exists>q. last_amount a i m post = Some q \<and> map_of ?T m = Some (0, q)"
    if "\<not> appears a i m pre" "appears a i m post"
  proof -
    from that have "last_amount a i m pre = None" "last_amount a i m post \<noteq> None"
      by (simp_all add: last_amount_None_iff)
    then show ?thesis using M by auto
  qed
  have c2: "\<exists>p. last_amount a i m pre = Some p \<and> map_of ?T m = Some (p, 0)"
    if "appears a i m pre" "\<not> appears a i m post"
  proof -
    from that have "last_amount a i m pre \<noteq> None" "last_amount a i m post = None"
      by (simp_all add: last_amount_None_iff)
    then show ?thesis using M by auto
  qed
  have c3: "\<exists>p q. last_amount a i m pre = Some p \<and> last_amount a i m post = Some q \<and>
      map_of ?T m = Some (p, q) \<and> filter (\<lambda>e. fst e = m) ?T = [(m, p, q)]"
    if "appears a i m pre" "appears a i m post"
  proof -
    from that obtain p q where pq: "last_amount a i m pre = Some p" "last_amount a i m post = Some q"
      using last_amount_None_iff by (metis option.exhaust)
    then have mo: "map_of ?T m = Some (p, q)" using M by simp
    have "filter (\<lambda>e. fst e = m) ?T = [(m, p, q)]" using d mo by (rule filter_key_distinct)
    then show ?thesis using pq mo by blast
  qed
  have c4: "map_of ?T m = None" if "\<not> appears a i m pre" "\<not> appears a i m post"
  proof -
    from that have "last_amount a i m pre = None" "last_amount a i m post = None"
      by (simp_all add: last_amount_None_iff)
    then show ?thesis using M by simp
  qed
  have c5: "filter (\<lambda>r. bc_token_address r = m) (token_changes g sig block time_text ?T) =
     (case map_of ?T m of
        None \<Rightarrow> []
      | Some (p, q) \<Rightarrow>
          if q \<noteq> p then
            [\<lparr>bc_signature = sig, bc_block = block, bc_time = time_text,
              bc_amount = replace_plus (py_float (q - p) > 0)
                            (format_f True True 6 (py_float (q - p))),
              bc_post_balance = format_f False True 6 q,
              bc_token_name = g m, bc_token_address = m\<rparr>]
          else [])"
    unfolding filter_token_changes [OF d]
    by (simp add: token_change_eq py_float_eq_0_iff split: option.splits prod.splits)
  show ?thesis using d c1 c2 c3 c4 c5 by blast
qed

theorem token_balances_merged_per_mint_witness:
  "appears demo_address 0 ''X'' demo_pre_tokens \<and> appears demo_address 0 ''X'' demo_post_tokens \<and>
   map_of (token_bal_changes demo_address 0 demo_pre_tokens demo_post_tokens) ''X'' = Some (100, 100) \<and>
   filter (\<lambda>e. fst e = ''X'') (token_bal_changes demo_address 0 demo_pre_tokens demo_post_tokens) =
     [(''X'', 100, 100)] \<and>
   filter (\<lambda>r. bc_token_address r = ''X'')
     (token_changes (\<lambda>m. ''TKN'') ''5sig'' ''250000000'' ''2 hrs ago''
        (token_bal_changes demo_address 0 demo_pre_tokens demo_post_tokens)) = [] \<and>
   appears demo_address 0 ''Y'' demo_pre_tokens \<and> \<not> appears demo_address 0 ''Y'' demo_post_tokens \<and>
   map_of (token_bal_changes demo_address 0 demo_pre_tokens demo_post_tokens) ''Y'' = Some (5, 0) \<and>
   length (filter (\<lambda>r. bc_token_address r = ''Y'')
     (token_changes (\<lambda>m. ''TKN'') ''5sig'' ''250000000'' ''2 hrs ago''
        (token_bal_changes demo_address 0 demo_pre_tokens demo_post_tokens))) = 1 \<and>
   \<not> appears demo_address 0 ''Z'' demo_pre_tokens \<and> appears demo_address 0 ''Z'' demo_post_tokens \<and>
   map_of (token_bal_changes demo_address 0 demo_pre_tokens demo_post_tokens) ''Z'' = Some (0, 15 / 2)"
proof -
  let ?T = "token_bal_changes demo_address 0 demo_pre_tokens demo_post_tokens"
  let ?R = "token_changes (\<lambda>m. ''TKN'') ''5sig'' ''250000000'' ''2 hrs ago'' ?T"
  have x1: "appears demo_address 0 ''X'' demo_pre_tokens" by code_simp
  have x2: "appears demo_address 0 ''X'' demo_post_tokens" by code_simp
  have y1: "appears demo_address 0 ''Y'' demo_pre_tokens" by code_simp
  have y2: "\<not> appears demo_address 0 ''Y'' demo_post_tokens" by code_simp
  have z1: "\<not> appears demo_address 0 ''Z'' demo_pre_tokens" by code_simp
  have z2: "appears demo_address 0 ''Z'' demo_post_tokens" by code_simp
  have lx1: "last_amount demo_address 0 ''X'' demo_pre_tokens = Some 100" by code_simp
  have lx2: "last_amount demo_address 0 ''X'' demo_post_tokens = Some 100" by code_simp
  have ly: "last_amount demo_address 0 ''Y'' demo_pre_tokens = Some 5" by code_simp
  have lz: "last_amount demo_address 0 ''Z'' demo_post_tokens = Some (15 / 2)" by code_simp
  note TX = token_balances_merged_per_mint [of demo_address 0 demo_pre_tokens demo_post_tokens
      "''X''" "\<lambda>m. ''TKN''" "''5sig''" "''250000000''" "''2 hrs ago''"]
  note TY = token_balances_merged_per_mint [of demo_address 0 demo_pre_tokens demo_post_tokens
      "''Y''" "\<lambda>m. ''TKN''" "''5sig''" "''250000000''" "''2 hrs ago''"]
  note TZ = token_balances_merged_per_mint [of demo_address 0 demo_pre_tokens demo_post_tokens
      "''Z''" "\<lambda>m. ''TKN''" "''5sig''" "''250000000''" "''2 hrs ago''"]
  from TX x1 x2 obtain p q where "last_amount demo_address 0 ''X'' demo_pre_tokens = Some p"
    "last_amount demo_address 0 ''X'' demo_post_tokens = Some q"
    "map_of ?T ''X'' = Some (p, q)" "filter (\<lambda>e. fst e = ''X'') ?T = [(''X'', p, q)]"
    by blast
  with lx1 lx2 have X: "map_of ?T ''X'' = Some (100, 100)"
    and X': "filter (\<lambda>e. fst e = ''X'') ?T = [(''X'', 100, 100)]"
    by simp_all
  from TX have "filter (\<lambda>r. bc_token_address r = ''X'') ?R =
     (case map_of ?T ''X'' of
        None \<Rightarrow> []
      | Some (p, q) \<Rightarrow>
          if q \<noteq> p then
            [\<lparr>bc_signature = ''5sig'', bc_block = ''250000000'', bc_time = ''2 hrs ago'',
              bc_amount = replace_plus (py_float (q - p) > 0)
                            (format_f True True 6 (py_float (q - p))),
              bc_post_balance = format_f False True 6 q,
              bc_token_name = ''TKN'', bc_token_address = ''X''\<rparr>]
          else [])"
    by blast
  then have RX: "filter (\<lambda>r. bc_token_address r = ''X'') ?R = []" unfolding X by simp
  from TY y1 y2 obtain p where "last_amount demo_address 0 ''Y'' demo_pre_tokens = Some p"
    "map_of ?T ''Y'' = Some (p, 0)"
    by blast
  with ly have Y: "map_of ?T ''Y'' = Some (5, 0)" by simp
  from TY have "filter (\<lambda>r. bc_token_address r = ''Y'') ?R =
     (case map_of ?T ''Y'' of
        None \<Rightarrow> []
      | Some (p, q) \<Rightarrow>
          if q \<noteq> p then
            [\<lparr>bc_signature = ''5sig'', bc_block = ''250000000'', bc_time = ''2 hrs ago'',
              bc_amount = replace_plus (py_float (q - p) > 0)
                            (format_f True True 6 (py_float (q - p))),
              bc_post_balance = format_f False True 6 q,
              bc_token_name = ''TKN'', bc_token_address = ''Y''\<rparr>]
          else [])"
    by blast
  then have RY: "length (filter (\<lambda>r. bc_token_address r = ''Y'') ?R) = 1" unfolding Y by simp
  from TZ z1 z2 obtain q where "last_amount demo_address 0 ''Z'' demo_post_tokens = Some q"
    "map_of ?T ''Z'' = Some (0, q)"
    by blast
  with lz have Z: "map_of ?T ''Z'' = Some (0, 15 / 2)" by simp
  show ?thesis using x1 x2 y1 y2 z1 z2 X X' RX Y RY Z by (intro conjI)
qed

text \<open>
  A mint in both lists does not always yield a record: in the example transaction the mint
  \<open>X\<close> has a pre and a post entry with the same amount \<open>100\<close>, and
  \<open>_extract_balance_changes\<close> returns no record for it.
\<close>

theorem both_lists_no_record_counterexample:
  "appears demo_address 0 ''X'' demo_pre_tokens \<and> appears demo_address 0 ''X'' demo_post_tokens \<and>
   map_sum id (filter (\<lambda>r. bc_token_address r = ''X''))
     (extract_balance_changes (\<lambda>m. ''TKN'') (1700000000 * second_us) demo_balance_tx demo_address) =
     Inr []"
  by code_simp

lemma extract_balance_changes_Inr:
  assumes "extract_balance_changes g now tx address = Inr rs"
  shows "\<exists>time_text.
    rs = token_changes g (case signatures tx of [] \<Rightarrow> '''' | s # _ \<Rightarrow> s) (str_int (slot tx))
           time_text (tx_token_bal_changes tx address) @
         sol_change (case signatures tx of [] \<Rightarrow> '''' | s # _ \<Rightarrow> s) (str_int (slot tx)) time_text
           (index_of address (account_keys tx) 0)
           (case meta tx of Some m \<Rightarrow> pre_balances m | None \<Rightarrow> [])
           (case meta tx of Some m \<Rightarrow> post_balances m | None \<Rightarrow> [])"
proof -
  define stamped where "stamped =
     (case block_time tx of
        None \<Rightarrow> Some ''Unknown''
      | Some t \<Rightarrow> if t = 0 then Some ''Unknown''
                  else map_option (format_time_ago now) (fromtimestamp t))"
  have e: "extract_balance_changes g now tx address =
     (case stamped of
        None \<Rightarrow> Inl (Exn ''year out of range'')
      | Some time_text \<Rightarrow>
          Inr (token_changes g (case signatures tx of [] \<Rightarrow> '''' | s # _ \<Rightarrow> s) (str_int (slot tx))
                 time_text (tx_token_bal_changes tx address) @
               sol_change (case signatures tx of [] \<Rightarrow> '''' | s # _ \<Rightarrow> s) (str_int (slot tx))
                 time_text (index_of address (account_keys tx) 0)
                 (case meta tx of Some m \<Rightarrow> pre_balances m | None \<Rightarrow> [])
                 (case meta tx of Some m \<Rightarrow> post_balances m | None \<Rightarrow> [])))"
    unfolding extract_balance_changes_def Let_def stamped_def tx_token_bal_changes_def
    by (rule refl)
  show ?thesis
  proof (cases stamped)
    case None
    then show ?thesis using assms e by simp
  next
    case (Some time_text)
    then have "rs = token_changes g (case signatures tx of [] \<Rightarrow> '''' | s # _ \<Rightarrow> s)
           (str_int (slot tx)) time_text (tx_token_bal_changes tx address) @
         sol_change (case signatures tx of [] \<Rightarrow> '''' | s # _ \<Rightarrow> s) (str_int (slot tx)) time_text
           (index_of address (account_keys tx) 0)
           (case meta tx of Some m \<Rightarrow> pre_balances m | None \<Rightarrow> [])
           (case meta tx of Some m \<Rightarrow> post_balances m | None \<Rightarrow> [])"
      using assms e by simp
    then show ?thesis by (rule exI)
  qed
qed

lemma token_changes_member:
  assumes "r \<in> set (token_changes g sig block time_text al)"
  shows "\<exists>e \<in> set al. r \<in> set (token_change g sig block time_text e)"
  using assms by (auto simp: token_changes_def)

text \<open>Every record of the token part is the change record of its own mint.\<close>

lemma token_changes_token_record:
  assumes d: "distinct (map fst al)" and r: "r \<in> set (token_changes g sig block time_text al)"
  shows "token_record g al r"
proof -
  from token_changes_member [OF r] obtain e where e: "e \<in> set al"
    and re: "r \<in> set (token_change g sig block time_text e)"
    by blast
  obtain m p q where epq: "e = (m, p, q)" by (cases e)
  have mo: "map_of al m = Some (p, q)" using d e epq by simp
  from re have nz: "py_float (q - p) \<noteq> 0"
    and req: "r = \<lparr>bc_signature = sig, bc_block = block, bc_time = time_text,
          bc_amount = replace_plus (py_float (q - p) > 0) (format_f True True 6 (py_float (q - p))),
          bc_post_balance = format_f False True 6 q,
          bc_token_name = g m, bc_token_address = m\<rparr>"
    unfolding epq token_change_eq by (simp_all split: if_splits)
  have ne: "q \<noteq> p" using nz by (simp add: py_float_eq_0_iff)
  show ?thesis
    unfolding token_record_def using mo nz ne by (simp add: req)
qed

lemma sol_change_eq:
  "sol_change sig block time_text idx pre post =
     (if idx \<ge> 0 \<and> idx < int (length pre) \<and> idx < int (length post) \<and>
         py_float (lamports_to_sol (post ! nat idx) - lamports_to_sol (pre ! nat idx)) \<noteq> 0
      then [\<lparr>bc_signature = sig, bc_block = block, bc_time = time_text,
              bc_amount =
                replace_plus
                  (py_float (lamports_to_sol (post ! nat idx) - lamports_to_sol (pre ! nat idx)) > 0)
                  (format_f True True 9
                     (py_float (lamports_to_sol (post ! nat idx) - lamports_to_sol (pre ! nat idx)))),
              bc_post_balance = format_f False True 9 (lamports_to_sol (post ! nat idx)),
              bc_token_name = ''SOL'',
              bc_token_address = ''So11111111111111111111111111111111111111111''\<rparr>]
      else [])"
  by (simp add: sol_change_def Let_def)

lemma tx_sol_balances_eq:
  "tx_sol_balances tx address =
     (if index_of address (account_keys tx) 0 \<ge> 0 \<and>
         index_of address (account_keys tx) 0 <
           int (length (case meta tx of Some m \<Rightarrow> pre_balances m | None \<Rightarrow> [])) \<and>
         index_of address (account_keys tx) 0 <
           int (length (case meta tx of Some m \<Rightarrow> post_balances m | None \<Rightarrow> []))
      then Some ((case meta tx of Some m \<Rightarrow> pre_balances m | None \<Rightarrow> [])
                   ! nat (index_of address (account_keys tx) 0),
                 (case meta tx of Some m \<Rightarrow> post_balances m | None \<Rightarrow> [])
                   ! nat (index_of address (account_keys tx) 0))
      else None)"
  by (simp only: tx_sol_balances_def Let_def)

lemma length_token_changes:
  "length (token_changes g sig block time_text al) =
     length (filter (\<lambda>e. snd (snd e) \<noteq> fst (snd e)) al)"
proof (induction al)
  case Nil
  then show ?case by (simp add: token_changes_def)
next
  case (Cons e al)
  obtain m p q where e: "e = (m, p, q)" by (cases e)
  show ?case
    using Cons.IH unfolding e token_changes_Cons
    by (simp add: token_change_eq py_float_eq_0_iff)
qed

text \<open>
  Claim C5.  Let the call of \<open>_extract_balance_changes\<close> return the records
  \<open>rs\<close>.  Every record of \<open>rs\<close> is either the change record of its own
  mint, whose post amount in the merged table differs from its pre amount and whose signed
  difference is not zero, or the SOL record of the address, whose post balance differs from
  its pre balance and whose difference in SOL is not zero.  A mint other than the SOL
  placeholder has one record when its post amount differs from its pre amount and none
  otherwise; in particular a mint with equal pre and post amounts has no record.  The number
  of records is the number of mints whose amounts differ, plus one when the SOL balances of
  the address differ in SOL.  With equal SOL balances, or with no SOL balance for the
  address, every record is a token record; a SOL record, when there is one, is the last
  record.
\<close>

theorem balance_change_only_when_nonzero:
  assumes "extract_balance_changes g now tx address = Inr rs"
  shows "(\<forall>r \<in> set rs. token_record g (tx_token_bal_changes tx address) r \<or>
                     sol_record (tx_sol_balances tx address) r) \<and>
    (\<forall>m. m \<noteq> ''So11111111111111111111111111111111111111111'' \<longrightarrow>
       length (filter (\<lambda>r. bc_token_address r = m) rs) =
         (case map_of (tx_token_bal_changes tx address) m of
            None \<Rightarrow> 0
          | Some (p, q) \<Rightarrow> if q \<noteq> p then 1 else 0)) \<and>
    (\<forall>m p. m \<noteq> ''So11111111111111111111111111111111111111111'' \<and>
       map_of (tx_token_bal_changes tx address) m = Some (p, p) \<longrightarrow>
       (\<forall>r \<in> set rs. bc_token_address r \<noteq> m)) \<and>
    length rs =
      length (filter (\<lambda>e. snd (snd e) \<noteq> fst (snd e)) (tx_token_bal_changes tx address)) +
      (case tx_sol_balances tx address of
         None \<Rightarrow> 0
       | Some (a, b) \<Rightarrow> if lamports_to_sol b \<noteq> lamports_to_sol a then 1 else 0) \<and>
    ((case tx_sol_balances tx address of None \<Rightarrow> True | Some (a, b) \<Rightarrow> b = a) \<longrightarrow>
       (\<forall>r \<in> set rs. token_record g (tx_token_bal_changes tx address) r)) \<and>
    (\<forall>a b. tx_sol_balances tx address = Some (a, b) \<and> lamports_to_sol b \<noteq> lamports_to_sol a \<longrightarrow>
       rs \<noteq> [] \<and> sol_record (tx_sol_balances tx address) (last rs))"
proof -
  define sig where "sig = (case signatures tx of [] \<Rightarrow> '''' | s # _ \<Rightarrow> s)"
  define T where "T = tx_token_bal_changes tx address"
  define B where "B = tx_sol_balances tx address"
  define idx where "idx = index_of address (account_keys tx) 0"
  define pre where "pre = (case meta tx of Some m \<Rightarrow> pre_balances m | None \<Rightarrow> [])"
  define post where "post = (case meta tx of Some m \<Rightarrow> post_balances m | None \<Rightarrow> [])"
  define SOL where "SOL = ''So11111111111111111111111111111111111111111''"
  from extract_balance_changes_Inr [OF assms] obtain time_text where
    rs: "rs = token_changes g sig (str_int (slot tx)) time_text T @
              sol_change sig (str_int (slot tx)) time_text idx pre post"
    unfolding sig_def T_def idx_def pre_def post_def by blast
  define tok where "tok = token_changes g sig (str_int (slot tx)) time_text T"
  define sol where "sol = sol_change sig (str_int (slot tx)) time_text idx pre post"
  define valid where "valid \<longleftrightarrow> idx \<ge> 0 \<and> idx < int (length pre) \<and> idx < int (length post)"
  define delta where
    "delta = py_float (lamports_to_sol (post ! nat idx) - lamports_to_sol (pre ! nat idx))"
  define solrec where "solrec =
     \<lparr>bc_signature = sig, bc_block = str_int (slot tx), bc_time = time_text,
      bc_amount = replace_plus (delta > 0) (format_f True True 9 delta),
      bc_post_balance = format_f False True 9 (lamports_to_sol (post ! nat idx)),
      bc_token_name = ''SOL'', bc_token_address = SOL\<rparr>"
  have r: "rs = tok @ sol" using rs by (simp only: tok_def sol_def)
  have d: "distinct (map fst T)"
    unfolding T_def tx_token_bal_changes_def by (rule distinct_token_bal_changes)
  have sol_eq: "sol = (if valid \<and> delta \<noteq> 0 then [solrec] else [])"
    unfolding sol_def sol_change_eq valid_def delta_def solrec_def SOL_def by simp
  have B_eq: "B = (if valid then Some (pre ! nat idx, post ! nat idx) else None)"
    unfolding B_def tx_sol_balances_eq valid_def idx_def pre_def post_def by simp
  have delta0: "delta \<noteq> 0 \<longleftrightarrow>
      lamports_to_sol (post ! nat idx) \<noteq> lamports_to_sol (pre ! nat idx)"
    unfolding delta_def by (simp add: py_float_eq_0_iff)
  have tokrec: "token_record g T x" if "x \<in> set tok" for x
    using d that unfolding tok_def by (rule token_changes_token_record)
  have solrec_ok: "sol_record B solrec" if "valid" "delta \<noteq> 0"
  proof -
    have "post ! nat idx \<noteq> pre ! nat idx" using that(2) delta0 by auto
    then show ?thesis
      using that unfolding B_eq sol_record_def solrec_def delta_def SOL_def by simp
  qed
  have c1: "token_record g T x \<or> sol_record B x" if "x \<in> set rs" for x
  proof (cases "x \<in> set tok")
    case True
    then show ?thesis using tokrec by simp
  next
    case False
    then have "x \<in> set sol" using that r by simp
    then have "valid \<and> delta \<noteq> 0 \<and> x = solrec" unfolding sol_eq by (simp split: if_splits)
    then show ?thesis using solrec_ok by simp
  qed
  have solfilter: "filter (\<lambda>x. bc_token_address x = m) sol = []" if "m \<noteq> SOL" for m
    unfolding sol_eq using that by (simp add: solrec_def)
  have tokfilter: "filter (\<lambda>x. bc_token_address x = m) tok =
      (case map_of T m of None \<Rightarrow> [] | Some pq \<Rightarrow> token_change g sig (str_int (slot tx)) time_text (m, pq))"
    for m
    unfolding tok_def using d by (rule filter_token_changes)
  have c2: "length (filter (\<lambda>x. bc_token_address x = m) rs) =
      (case map_of T m of None \<Rightarrow> 0 | Some (p, q) \<Rightarrow> if q \<noteq> p then 1 else 0)"
    if "m \<noteq> SOL" for m
    unfolding r filter_append tokfilter solfilter [OF that]
    by (simp add: token_change_eq py_float_eq_0_iff split: option.splits prod.splits)
  have c3: "bc_token_address x \<noteq> m" if "m \<noteq> SOL" "map_of T m = Some (p, p)" "x \<in> set rs"
    for m p x
  proof -
    have "length (filter (\<lambda>x. bc_token_address x = m) rs) = 0"
      using c2 [OF that(1)] that(2) by simp
    then have "filter (\<lambda>x. bc_token_address x = m) rs = []" by simp
    then have "\<forall>y \<in> set rs. bc_token_address y \<noteq> m" by (simp only: filter_empty_conv)
    then show ?thesis using that(3) by (rule bspec)
  qed
  have c4: "length rs = length (filter (\<lambda>e. snd (snd e) \<noteq> fst (snd e)) T) +
      (case B of None \<Rightarrow> 0
       | Some (a, b) \<Rightarrow> if lamports_to_sol b \<noteq> lamports_to_sol a then 1 else 0)"
    unfolding r length_append tok_def length_token_changes sol_eq B_eq
    using delta0 by simp
  have c5: "\<forall>x \<in> set rs. token_record g T x"
    if "case B of None \<Rightarrow> True | Some (a, b) \<Rightarrow> b = a"
  proof -
    have "\<not> (valid \<and> delta \<noteq> 0)"
      using that delta0 unfolding B_eq by (auto split: if_splits)
    then have "sol = []" unfolding sol_eq by simp
    then show ?thesis using r tokrec by simp
  qed
  have c6: "rs \<noteq> [] \<and> sol_record B (last rs)"
    if "B = Some (a, b)" "lamports_to_sol b \<noteq> lamports_to_sol a" for a b
  proof -
    from that(1) have v: valid and ab: "a = pre ! nat idx" "b = post ! nat idx"
      unfolding B_eq by (simp_all split: if_splits)
    have dz: "delta \<noteq> 0" using that(2) ab delta0 by simp
    have "sol = [solrec]" unfolding sol_eq using v dz by simp
    then show ?thesis using r solrec_ok [OF v dz] by simp
  qed
  have "(\<forall>r \<in> set rs. token_record g T r \<or> sol_record B r) \<and>
    (\<forall>m. m \<noteq> SOL \<longrightarrow>
       length (filter (\<lambda>r. bc_token_address r = m) rs) =
         (case map_of T m of None \<Rightarrow> 0 | Some (p, q) \<Rightarrow> if q \<noteq> p then 1 else 0)) \<and>
    (\<forall>m p. m \<noteq> SOL \<and> map_of T m =
       Some (p, p) \<longrightarrow> (\<forall>r \<in> set rs. bc_token_address r \<noteq> m)) \<and>
    length rs =
      length (filter (\<lambda>e. snd (snd e) \<noteq> fst (snd e)) T) +
      (case B of None \<Rightarrow> 0
       | Some (a, b) \<Rightarrow> if lamports_to_sol b \<noteq> lamports_to_sol a then 1 else 0) \<and>
    ((case B of None \<Rightarrow> True | Some (a, b) \<Rightarrow> b = a) \<longrightarrow> (\<forall>r \<in> set rs. token_record g T r)) \<and>
    (\<forall>a b. B = Some (a, b) \<and> lamports_to_sol b \<noteq> lamports_to_sol a \<longrightarrow>
       rs \<noteq> [] \<and> sol_record B (last rs))"
  proof (intro conjI ballI allI impI)
    fix x assume "x \<in> set rs"
    then show "token_record g T x \<or> sol_record B x" by (rule c1)
  next
    fix m assume "m \<noteq> SOL"
    then show "length (filter (\<lambda>r. bc_token_address r = m) rs) =
         (case map_of T m of None \<Rightarrow> 0 | Some (p, q) \<Rightarrow> if q \<noteq> p then 1 else 0)"
      by (rule c2)
  next
    fix m p x assume "m \<noteq> SOL \<and> map_of T m = Some (p, p)" "x \<in> set rs"
    then show "bc_token_address x \<noteq> m" using c3 by blast
  next
    show "length rs = length (filter (\<lambda>e. snd (snd e) \<noteq> fst (snd e)) T) +
      (case B of None \<Rightarrow> 0
       | Some (a, b) \<Rightarrow> if lamports_to_sol b \<noteq> lamports_to_sol a then 1 else 0)"
      by (rule c4)
  next
    fix x assume "case B of None \<Rightarrow> True | Some (a, b) \<Rightarrow> b = a" "x \<in> set rs"
    then show "token_record g T x" using c5 by blast
  next
    fix a b assume "B = Some (a, b) \<and> lamports_to_sol b \<noteq> lamports_to_sol a"
    then show "rs \<noteq> []" using c6 by blast
  next
    fix a b assume "B = Some (a, b) \<and> lamports_to_sol b \<noteq> lamports_to_sol a"
    then show "sol_record B (last rs)" using c6 by blast
  qed
  then show ?thesis unfolding T_def B_def SOL_def .
qed

theorem balance_change_only_when_nonzero_witness:
  "extract_balance_changes (\<lambda>m. ''TKN'') (1700000000 * second_us) demo_balance_tx demo_address =
     Inr demo_balance_changes \<and>
   map_of (tx_token_bal_changes demo_balance_tx demo_address) ''X'' = Some (100, 100) \<and>
   tx_sol_balances demo_balance_tx demo_address = Some (2000000000, 1500000000) \<and>
   list_all (\<lambda>r.
      token_record (\<lambda>m. ''TKN'') (tx_token_bal_changes demo_balance_tx demo_address) r \<or>
      sol_record (tx_sol_balances demo_balance_tx demo_address) r) demo_balance_changes \<and>
   length (filter (\<lambda>r. bc_token_address r = ''X'') demo_balance_changes) = 0 \<and>
   list_all (\<lambda>r. bc_token_address r \<noteq> ''X'') demo_balance_changes \<and>
   sol_record (tx_sol_balances demo_balance_tx demo_address) (last demo_balance_changes)"
proof -
  have h: "extract_balance_changes (\<lambda>m. ''TKN'') (1700000000 * second_us) demo_balance_tx
      demo_address = Inr demo_balance_changes"
    by code_simp
  have x: "map_of (tx_token_bal_changes demo_balance_tx demo_address) ''X'' = Some (100, 100)"
    by code_simp
  have b: "tx_sol_balances demo_balance_tx demo_address = Some (2000000000, 1500000000)"
    by code_simp
  have l: "lamports_to_sol 1500000000 \<noteq> lamports_to_sol 2000000000"
    by code_simp
  have n: "''X'' \<noteq> ''So11111111111111111111111111111111111111111''"
    by simp
  note T = balance_change_only_when_nonzero [OF h]
  from T have c1: "\<forall>r \<in> set demo_balance_changes.
      token_record (\<lambda>m. ''TKN'') (tx_token_bal_changes demo_balance_tx demo_address) r \<or>
      sol_record (tx_sol_balances demo_balance_tx demo_address) r"
    by (rule conjunct1)
  from T have "\<forall>m. m \<noteq> ''So11111111111111111111111111111111111111111'' \<longrightarrow>
       length (filter (\<lambda>r. bc_token_address r = m) demo_balance_changes) =
         (case map_of (tx_token_bal_changes demo_balance_tx demo_address) m of
            None \<Rightarrow> 0
          | Some (p, q) \<Rightarrow> if q \<noteq> p then 1 else 0)"
    by (elim conjE)
  note S2 = this
  have "length (filter (\<lambda>r. bc_token_address r = ''X'') demo_balance_changes) =
         (case map_of (tx_token_bal_changes demo_balance_tx demo_address) ''X'' of
            None \<Rightarrow> 0
          | Some (p, q) \<Rightarrow> if q \<noteq> p then 1 else 0)"
    by (rule S2 [rule_format, OF n])
  then have c2: "length (filter (\<lambda>r. bc_token_address r = ''X'') demo_balance_changes) = 0"
    unfolding x by simp
  from T have "\<forall>m p. m \<noteq> ''So11111111111111111111111111111111111111111'' \<and>
       map_of (tx_token_bal_changes demo_balance_tx demo_address) m = Some (p, p) \<longrightarrow>
       (\<forall>r \<in> set demo_balance_changes. bc_token_address r \<noteq> m)"
    by (elim conjE)
  note S3 = this
  have c3: "\<forall>r \<in> set demo_balance_changes. bc_token_address r \<noteq> ''X''"
    by (intro ballI) (rule S3 [rule_format, OF conjI [OF n x]])
  from T have "\<forall>a b. tx_sol_balances demo_balance_tx demo_address = Some (a, b) \<and>
       lamports_to_sol b \<noteq> lamports_to_sol a \<longrightarrow>
       demo_balance_changes \<noteq> [] \<and>
       sol_record (tx_sol_balances demo_balance_tx demo_address) (last demo_balance_changes)"
    by (elim conjE)
  note S4 = this
  have c4: "sol_record (tx_sol_balances demo_balance_tx demo_address)
      (last demo_balance_changes)"
    by (rule conjunct2 [OF S4 [rule_format, OF conjI [OF b l]]])
  have d1: "list_all (\<lambda>r.
      token_record (\<lambda>m. ''TKN'') (tx_token_bal_changes demo_balance_tx demo_address) r \<or>
      sol_record (tx_sol_balances demo_balance_tx demo_address) r) demo_balance_changes"
    unfolding list_all_iff by (rule c1)
  have d3: "list_all (\<lambda>r. bc_token_address r \<noteq> ''X'') demo_balance_changes"
    unfolding list_all_iff by (rule c3)
  from h x b d1 c2 d3 c4 show ?thesis by (intro conjI)
qed


end
